theory Spec2Isabelle
  imports Complex_Main "HOL-Library.AList" "HOL-Library.List_Lexorder" "HOL-Library.Char_ord"
begin

section \<open>Numeric cells of a pandas column\<close>

text \<open>
  A cell of a float64 column is NaN, plus or minus infinity, or a finite number.
  Finite numbers are exact rationals here: the operations below follow IEEE 754 in
  how NaN and the infinities propagate, and compute finite results without rounding
  and without overflow. Zero is unsigned, so a positive number divided by zero is
  plus infinity.
\<close>

datatype fval = NaN | PInf | NInf | Fin rat

fun fneg :: "fval \<Rightarrow> fval" where
  "fneg NaN = NaN"
| "fneg PInf = NInf"
| "fneg NInf = PInf"
| "fneg (Fin a) = Fin (- a)"

fun fadd :: "fval \<Rightarrow> fval \<Rightarrow> fval" where
  "fadd (Fin a) (Fin b) = Fin (a + b)"
| "fadd NaN _ = NaN"
| "fadd _ NaN = NaN"
| "fadd PInf NInf = NaN"
| "fadd NInf PInf = NaN"
| "fadd PInf _ = PInf"
| "fadd _ PInf = PInf"
| "fadd NInf _ = NInf"
| "fadd _ NInf = NInf"

definition fsub :: "fval \<Rightarrow> fval \<Rightarrow> fval" where
  "fsub x y = fadd x (fneg y)"

definition inf_times :: "rat \<Rightarrow> fval" where
  \<comment> \<open>plus infinity multiplied by a finite number\<close>
  "inf_times a = (if a = 0 then NaN else if 0 < a then PInf else NInf)"

fun fmul :: "fval \<Rightarrow> fval \<Rightarrow> fval" where
  "fmul (Fin a) (Fin b) = Fin (a * b)"
| "fmul NaN _ = NaN"
| "fmul _ NaN = NaN"
| "fmul (Fin a) PInf = inf_times a"
| "fmul (Fin a) NInf = fneg (inf_times a)"
| "fmul PInf (Fin b) = inf_times b"
| "fmul NInf (Fin b) = fneg (inf_times b)"
| "fmul PInf PInf = PInf"
| "fmul PInf NInf = NInf"
| "fmul NInf PInf = NInf"
| "fmul NInf NInf = PInf"

fun fdiv :: "fval \<Rightarrow> fval \<Rightarrow> fval" where
  "fdiv (Fin a) (Fin b) =
     (if b = 0 then (if a = 0 then NaN else if 0 < a then PInf else NInf)
      else Fin (a / b))"
| "fdiv NaN _ = NaN"
| "fdiv _ NaN = NaN"
| "fdiv (Fin a) PInf = Fin 0"
| "fdiv (Fin a) NInf = Fin 0"
| "fdiv PInf (Fin b) = (if 0 \<le> b then PInf else NInf)"
| "fdiv NInf (Fin b) = (if 0 \<le> b then NInf else PInf)"
| "fdiv PInf PInf = NaN"
| "fdiv PInf NInf = NaN"
| "fdiv NInf PInf = NaN"
| "fdiv NInf NInf = NaN"

fun fabs :: "fval \<Rightarrow> fval" where
  "fabs NaN = NaN"
| "fabs PInf = PInf"
| "fabs NInf = PInf"
| "fabs (Fin a) = Fin \<bar>a\<bar>"

fun flt :: "fval \<Rightarrow> fval \<Rightarrow> bool" where
  \<comment> \<open>\<open>x < y\<close>; every comparison with NaN is false\<close>
  "flt (Fin a) (Fin b) = (a < b)"
| "flt NaN _ = False"
| "flt _ NaN = False"
| "flt NInf NInf = False"
| "flt NInf _ = True"
| "flt _ NInf = False"
| "flt PInf _ = False"
| "flt _ PInf = True"

definition fgt :: "fval \<Rightarrow> fval \<Rightarrow> bool" where
  "fgt x y = flt y x"

definition fne :: "fval \<Rightarrow> fval \<Rightarrow> bool" where
  \<comment> \<open>\<open>x != y\<close>; NaN differs from everything, itself included\<close>
  "fne x y = (x = NaN \<or> y = NaN \<or> x \<noteq> y)"

section \<open>Series operations\<close>

text \<open>
  The pandas operations that \<open>load_csv_data_from_path\<close> applies to a column, on the list of
  its cells in row order.
\<close>

definition fillna :: "fval \<Rightarrow> fval list \<Rightarrow> fval list" where
  "fillna v xs = map (\<lambda>x. if x = NaN then v else x) xs"

definition shift1 :: "fval list \<Rightarrow> fval list" where
  \<comment> \<open>\<open>s.shift(1)\<close>: every cell moves one row down, the first row is NaN\<close>
  "shift1 xs = (case xs of [] \<Rightarrow> [] | _ # _ \<Rightarrow> NaN # butlast xs)"

fun ffill_from :: "fval \<Rightarrow> fval list \<Rightarrow> fval list" where
  "ffill_from prev [] = []"
| "ffill_from prev (x # xs) =
     (if x = NaN then prev # ffill_from prev xs else x # ffill_from x xs)"

definition ffill :: "fval list \<Rightarrow> fval list" where
  "ffill xs = ffill_from NaN xs"

definition pct_change :: "fval list \<Rightarrow> fval list" where
  \<comment> \<open>\<open>s.pct_change()\<close> of pandas 2: missing cells are padded forward, then
      \<open>s / s.shift(1) - 1\<close>\<close>
  "pct_change xs =
     (let d = ffill xs in map2 (\<lambda>x p. fsub (fdiv x p) (Fin 1)) d (shift1 d))"

definition diff :: "fval list \<Rightarrow> fval list" where
  \<comment> \<open>\<open>s.diff()\<close>: \<open>s - s.shift(1)\<close>, so the first row is NaN\<close>
  "diff xs = map2 fsub xs (shift1 xs)"

definition replace_inf :: "fval \<Rightarrow> fval list \<Rightarrow> fval list" where
  \<comment> \<open>\<open>s.replace([np.inf, -np.inf], v)\<close>\<close>
  "replace_inf v xs = map (\<lambda>x. if x = PInf \<or> x = NInf then v else x) xs"

fun cumprod_from :: "fval \<Rightarrow> fval list \<Rightarrow> fval list" where
  "cumprod_from acc [] = []"
| "cumprod_from acc (x # xs) =
     (if x = NaN then NaN # cumprod_from acc xs
      else fmul acc x # cumprod_from (fmul acc x) xs)"

definition cumprod :: "fval list \<Rightarrow> fval list" where
  \<comment> \<open>\<open>s.cumprod()\<close> skips NaN: such a row is NaN in the result and leaves the running
      product as it was\<close>
  "cumprod xs = cumprod_from (Fin 1) xs"

definition clip1 :: "fval \<Rightarrow> fval \<Rightarrow> fval \<Rightarrow> fval" where
  "clip1 lo hi x = (if flt x lo then lo else if fgt x hi then hi else x)"

definition clip :: "fval \<Rightarrow> fval \<Rightarrow> fval list \<Rightarrow> fval list" where
  \<comment> \<open>\<open>s.clip(lower=lo, upper=hi)\<close>; NaN stays NaN\<close>
  "clip lo hi xs = map (clip1 lo hi) xs"

section \<open>Data frames\<close>

text \<open>
  A DataFrame is the list of its columns in column order, each under its name.
  Assigning \<open>df[name] = column\<close> replaces the column of that name where it stands, or
  appends a new one, which is what \<open>AList.update\<close> does.
\<close>

datatype column = FloatCol "fval list" | BoolCol "bool list" | TimeCol "int list"

type_synonym frame = "(string \<times> column) list"

definition columns :: "frame \<Rightarrow> string list" where
  "columns df = map fst df"

definition setcol :: "string \<Rightarrow> column \<Rightarrow> frame \<Rightarrow> frame" where
  "setcol name c df = AList.update name c df"

definition get_float :: "frame \<Rightarrow> string \<Rightarrow> fval list option" where
  "get_float df name = (case map_of df name of Some (FloatCol xs) \<Rightarrow> Some xs | _ \<Rightarrow> None)"

fun col_len :: "column \<Rightarrow> nat" where
  "col_len (FloatCol xs) = length xs"
| "col_len (BoolCol xs) = length xs"
| "col_len (TimeCol xs) = length xs"

definition len :: "frame \<Rightarrow> nat" where
  \<comment> \<open>\<open>len(df)\<close>: the number of rows\<close>
  "len df = (case df of [] \<Rightarrow> 0 | (_, c) # _ \<Rightarrow> col_len c)"

definition df_empty :: "frame \<Rightarrow> bool" where
  \<comment> \<open>\<open>df.empty\<close>: no column or no row\<close>
  "df_empty df = (df = [] \<or> len df = 0)"

section \<open>Metrics engine\<close>

text \<open>
  Lines 173 to 221 of \<open>load_csv_data_from_path\<close>, statement by statement. \<open>fee_percent\<close> is
  the number read from the configuration at lines 195 to 200.
\<close>

definition derived_columns :: "rat \<Rightarrow> fval list \<Rightarrow> fval list \<Rightarrow> frame \<Rightarrow> frame" where
  "derived_columns fee_percent close position df0 =
     (let returns = fillna (Fin 0) (pct_change close);
          df = setcol ''returns'' (FloatCol returns) df0;
          position_lag = fillna (Fin 0) (shift1 position);
          df = setcol ''position_lag'' (FloatCol position_lag) df;
          strategy_returns = map2 fmul returns position_lag;
          strategy_returns = fillna (Fin 0) (replace_inf (Fin 0) strategy_returns);
          df = setcol ''strategy_returns'' (FloatCol strategy_returns) df;
          cumulative_return =
            map (\<lambda>x. fsub x (Fin 1)) (cumprod (map (fadd (Fin 1)) strategy_returns));
          cumulative_return = clip (Fin (- (99 / 100))) (Fin 1) cumulative_return;
          cumulative_return = fillna (Fin 0) cumulative_return;
          df = setcol ''cumulative_return'' (FloatCol cumulative_return) df;
          position_change = diff position;
          df = setcol ''position_change'' (FloatCol position_change) df;
          is_trade = map (\<lambda>x. fne x (Fin 0)) position_change;
          df = setcol ''is_trade'' (BoolCol is_trade) df;
          position_change_abs = map fabs position_change;
          df = setcol ''position_change_abs'' (FloatCol position_change_abs) df;
          fee_multiplier =
            map2 (\<lambda>t a. if t then fmul (Fin (fee_percent / 100)) a else Fin 0)
              is_trade position_change_abs;
          df = setcol ''fee_multiplier'' (FloatCol fee_multiplier) df;
          strategy_returns_after_fees = map2 fsub strategy_returns fee_multiplier;
          df = setcol ''strategy_returns_after_fees'' (FloatCol strategy_returns_after_fees) df;
          cumulative_return_after_fees =
            map (\<lambda>x. fsub x (Fin 1))
              (cumprod (map (fadd (Fin 1)) strategy_returns_after_fees));
          cumulative_return_after_fees =
            clip (Fin (- (99 / 100))) (Fin 1) cumulative_return_after_fees;
          cumulative_return_after_fees = fillna (Fin 0) cumulative_return_after_fees;
          df = setcol ''cumulative_return_after_fees'' (FloatCol cumulative_return_after_fees) df;
          df = setcol ''transaction_cost'' (FloatCol fee_multiplier) df
      in df)"

definition needs_derived :: "frame \<Rightarrow> bool" where
  \<comment> \<open>the condition of line 172\<close>
  "needs_derived df =
     (''cumulative_return'' \<notin> set (columns df) \<and> ''position'' \<in> set (columns df)
      \<and> ''close'' \<in> set (columns df))"

definition compute_derived :: "rat \<Rightarrow> frame \<Rightarrow> frame" where
  \<comment> \<open>Lines 172 to 230: arithmetic on a column that is not numeric raises, and the handler
      of line 228 returns the empty frame \<open>pd.DataFrame()\<close>.\<close>
  "compute_derived fee_percent df =
     (if needs_derived df then
        (case (get_float df ''close'', get_float df ''position'') of
           (Some close, Some position) \<Rightarrow> derived_columns fee_percent close position df
         | _ \<Rightarrow> [])
      else df)"

definition in_cap :: "fval \<Rightarrow> bool" where
  \<comment> \<open>a finite number in the closed interval from -0.99 to 1.00\<close>
  "in_cap x = (case x of Fin r \<Rightarrow> - (99 / 100) \<le> r \<and> r \<le> 1 | _ \<Rightarrow> False)"

section \<open>Example series\<close>

text \<open>
  Three one-unit samples: flat at first, long from the second sample on; the same prices
  with one position held throughout; and a series that already carries its cumulative
  return.
\<close>

definition ex1 :: frame where
  "ex1 = [(''timestamp'', TimeCol [0, 1, 2]),
          (''close'', FloatCol [Fin 100, Fin 110, Fin 121]),
          (''position'', FloatCol [Fin 0, Fin 1, Fin 1])]"

definition ex_flat :: frame where
  "ex_flat = [(''timestamp'', TimeCol [0, 1, 2]),
              (''close'', FloatCol [Fin 100, Fin 110, Fin 121]),
              (''position'', FloatCol [Fin 1, Fin 1, Fin 1])]"

definition ex_done :: frame where
  "ex_done = [(''timestamp'', TimeCol [0, 1]),
              (''close'', FloatCol [Fin 100, Fin 110]),
              (''position'', FloatCol [Fin 1, Fin 1]),
              (''cumulative_return'', FloatCol [Fin 0, Fin (1 / 10)])]"

section \<open>Cache manager\<close>

text \<open>
  The module's globals. \<open>DATA_CACHE\<close> and \<open>LAST_MODIFIED\<close> are dicts: association lists in
  insertion order. \<open>loads\<close> is not a variable of the program: it records, in order, the
  paths that \<open>load_csv_data_from_path\<close> has been called with, so that "a reload is
  performed" can be read off the state.
\<close>

record cache =
  DATA_CACHE :: "(string \<times> frame) list"
  LAST_MODIFIED :: "(string \<times> rat) list"
  data_version :: int
  last_data_update :: rat
  loads :: "string list"

text \<open>
  The files on disk, by path: the modification time that \<open>os.path.getmtime\<close> reports and
  the frame that \<open>load_csv_data_from_path\<close> returns for the file. For a path with no file
  the loader returns the empty frame (line 115) and \<open>getmtime\<close> raises.
\<close>

record source_file =
  mtime :: rat
  loaded :: frame

type_synonym files = "string \<Rightarrow> source_file option"

definition load_csv_data_from_path :: "files \<Rightarrow> string \<Rightarrow> frame" where
  "load_csv_data_from_path fs csv_path =
     (case fs csv_path of None \<Rightarrow> [] | Some f \<Rightarrow> loaded f)"

definition getmtime :: "files \<Rightarrow> string \<Rightarrow> rat option" where
  "getmtime fs path = (case fs path of None \<Rightarrow> None | Some f \<Rightarrow> Some (mtime f))"

datatype 'a response = Ok 'a | Http_error nat string

definition store :: "string \<Rightarrow> frame \<Rightarrow> rat \<Rightarrow> rat \<Rightarrow> cache \<Rightarrow> cache" where
  \<comment> \<open>the four assignments of lines 972 to 975, 982 to 985 and 268 to 272\<close>
  "store cache_key df current_mtime now c =
     c\<lparr>DATA_CACHE := AList.update cache_key df (DATA_CACHE c),
       LAST_MODIFIED := AList.update cache_key current_mtime (LAST_MODIFIED c),
       data_version := data_version c + 1,
       last_data_update := now\<rparr>"

definition get_bucket_data_cache ::
  "files \<Rightarrow> rat \<Rightarrow> string \<Rightarrow> string \<Rightarrow> cache \<Rightarrow> cache \<times> frame response" where
  \<comment> \<open>Lines 965 to 988 of \<open>get_bucket_data\<close>. An exception that nothing catches ends the
      request with status 500.\<close>
  "get_bucket_data_cache fs now cache_key csv_path c =
     (case (map_of (DATA_CACHE c) cache_key, map_of (LAST_MODIFIED c) cache_key) of
        (Some cached, Some stored) \<Rightarrow>
          (case getmtime fs csv_path of
             None \<Rightarrow> (c, Http_error 500 ''Internal Server Error'')
           | Some current_mtime \<Rightarrow>
               if current_mtime > stored then
                 (let df = load_csv_data_from_path fs csv_path;
                      c = c\<lparr>loads := loads c @ [csv_path]\<rparr>
                  in if \<not> df_empty df then (store cache_key df current_mtime now c, Ok df)
                     else (c, Ok cached))
               else (c, Ok cached))
      | _ \<Rightarrow>
          (let df = load_csv_data_from_path fs csv_path;
               c = c\<lparr>loads := loads c @ [csv_path]\<rparr>
           in if df_empty df then (c, Http_error 500 ''Failed to load data'')
              else (case getmtime fs csv_path of
                      None \<Rightarrow>
                        (c\<lparr>DATA_CACHE := AList.update cache_key df (DATA_CACHE c)\<rparr>,
                         Http_error 500 ''Internal Server Error'')
                    | Some current_mtime \<Rightarrow>
                        (store cache_key df current_mtime now c, Ok df))))"

definition startswith :: "string \<Rightarrow> string \<Rightarrow> bool" where
  \<comment> \<open>\<open>s.startswith(p)\<close>\<close>
  "startswith p s = (take (length p) s = p)"

definition refresh_key ::
  "files \<Rightarrow> (string \<Rightarrow> string \<Rightarrow> string option) \<Rightarrow> rat \<Rightarrow> cache \<Rightarrow> string \<Rightarrow> cache" where
  \<comment> \<open>The body of the loop of \<open>refresh_data_cache\<close>, lines 243 to 275. \<open>find_csv bucket ts_id\<close>
      is the path of the first file of the bucket's directory listing whose name matches
      the pattern of line 255, if the directory exists and has one.\<close>
  "refresh_key fs find_csv now c cache_key =
     (if CHR ''/'' \<in> set cache_key \<and> \<not> startswith ''gs://'' cache_key then
        (let bucket = takeWhile (\<lambda>ch. ch \<noteq> CHR ''/'') cache_key;
             ts_id_part = tl (dropWhile (\<lambda>ch. ch \<noteq> CHR ''/'') cache_key)
         in if startswith ''TS-'' ts_id_part then
              (let ts_id = drop 3 ts_id_part
               in case find_csv bucket ts_id of
                    None \<Rightarrow> c
                  | Some csv_path \<Rightarrow>
                      (case getmtime fs csv_path of
                         None \<Rightarrow> c
                       | Some current_mtime \<Rightarrow>
                           if (case map_of (LAST_MODIFIED c) cache_key of
                                 None \<Rightarrow> 0 | Some stored \<Rightarrow> stored) < current_mtime
                           then
                             (let df = load_csv_data_from_path fs csv_path;
                                  c = c\<lparr>loads := loads c @ [csv_path]\<rparr>
                              in if \<not> df_empty df then store cache_key df current_mtime now c
                                 else c)
                           else c))
            else c)
      else c)"

definition refresh_data_cache ::
  "files \<Rightarrow> (string \<Rightarrow> string \<Rightarrow> string option) \<Rightarrow> rat \<Rightarrow> cache \<Rightarrow> cache" where
  \<comment> \<open>lines 237 to 242: the loop runs over the keys that \<open>DATA_CACHE\<close> has at the start\<close>
  "refresh_data_cache fs find_csv now c =
     foldl (refresh_key fs find_csv now) c (map fst (DATA_CACHE c))"

text \<open>
  A cache that holds one series, loaded from a file last modified at time 10; the file
  has since been rewritten, at time 20, and yields no usable data.
\<close>

definition cache0 :: cache where
  "cache0 = \<lparr>DATA_CACHE = [(''demo/TS-1'', ex_done)], LAST_MODIFIED = [(''demo/TS-1'', 10)],
             data_version = 1, last_data_update = 0, loads = []\<rparr>"

definition files0 :: files where
  \<comment> \<open>the source file has been rewritten and yields no usable data\<close>
  "files0 = (\<lambda>p. if p = ''./buckets/demo/x.csv'' then Some \<lparr>mtime = 20, loaded = []\<rparr> else None)"

definition find0 :: "string \<Rightarrow> string \<Rightarrow> string option" where
  "find0 bucket ts_id =
     (if bucket = ''demo'' \<and> ts_id = ''1'' then Some ''./buckets/demo/x.csv'' else None)"

section \<open>Incremental differ\<close>

definition isdigit :: "string \<Rightarrow> bool" where
  \<comment> \<open>\<open>s.isdigit()\<close> on ASCII text\<close>
  "isdigit s = (s \<noteq> [] \<and> list_all (\<lambda>ch. ch \<in> set ''0123456789'') s)"

definition resolve_cache_key :: "string \<Rightarrow> string \<Rightarrow> string option \<Rightarrow> string" where
  \<comment> \<open>Lines 1029 to 1070. \<open>found_ts_id\<close> is what the scan of the bucket's metadata files
      (lines 1039 to 1068) leaves in the variable of that name.\<close>
  "resolve_cache_key bucket symbol found_ts_id =
     (if startswith ''TS-'' symbol \<or> isdigit symbol then
        (if isdigit symbol then bucket @ ''/TS-'' @ symbol else bucket @ ''/'' @ symbol)
      else
        (case found_ts_id of
           Some ts_id \<Rightarrow>
             if ts_id \<noteq> [] then bucket @ ''/TS-'' @ ts_id else bucket @ ''/'' @ symbol
         | None \<Rightarrow> bucket @ ''/'' @ symbol))"

fun select_rows :: "bool list \<Rightarrow> column \<Rightarrow> column" where
  \<comment> \<open>the rows of a column where the mask is true\<close>
  "select_rows keep (FloatCol xs) = FloatCol (map snd (filter fst (zip keep xs)))"
| "select_rows keep (BoolCol xs) = BoolCol (map snd (filter fst (zip keep xs)))"
| "select_rows keep (TimeCol xs) = TimeCol (map snd (filter fst (zip keep xs)))"

definition select :: "bool list \<Rightarrow> frame \<Rightarrow> frame" where
  \<comment> \<open>\<open>df[mask]\<close>\<close>
  "select keep df = map (\<lambda>(name, c). (name, select_rows keep c)) df"

definition strftime :: "int \<Rightarrow> int" where
  \<comment> \<open>\<open>'%Y-%m-%d %H:%M:%S'\<close> prints a timestamp, which counts nanoseconds, down to the
      second: the text printed stands for that second\<close>
  "strftime t = t div 1000000000"

fun times100 :: "column \<Rightarrow> column option" where
  \<comment> \<open>\<open>(column * 100)\<close>; multiplying a datetime column raises\<close>
  "times100 (FloatCol xs) = Some (FloatCol (map (\<lambda>x. fmul x (Fin 100)) xs))"
| "times100 (BoolCol xs) = Some (FloatCol (map (\<lambda>b. Fin (if b then 100 else 0)) xs))"
| "times100 (TimeCol xs) = None"

datatype since_result =
    Http_failure nat string
  | No_new_data
  | New_data (timestamps: "int list") (prices: column) (positions: "column option")
      (cumulative_returns: "column option")

definition since_payload :: "int list \<Rightarrow> frame \<Rightarrow> since_result" where
  \<comment> \<open>Lines 1086 to 1098. A column that is missing where one is read, or that cannot be
      multiplied, raises, and the handler of line 1096 answers with status 500. An absent
      \<open>position\<close> or \<open>cumulative_return\<close> column gives the empty list, here \<open>None\<close>.\<close>
  "since_payload ts new_data =
     (case map_of new_data ''close'' of
        None \<Rightarrow> Http_failure 500 ''Failed to get incremental data''
      | Some close \<Rightarrow>
          (case map_of new_data ''cumulative_return'' of
             None \<Rightarrow> New_data (map strftime ts) close (map_of new_data ''position'') None
           | Some cr \<Rightarrow>
               (case times100 cr of
                  None \<Rightarrow> Http_failure 500 ''Failed to get incremental data''
                | Some cr100 \<Rightarrow>
                    New_data (map strftime ts) close (map_of new_data ''position'')
                      (Some cr100))))"

definition get_bucket_data_since ::
  "cache \<Rightarrow> string \<Rightarrow> string \<Rightarrow> string option \<Rightarrow> int option \<Rightarrow> cache \<times> since_result" where
  \<comment> \<open>Lines 1025 to 1098. \<open>last_dt\<close> is the value of \<open>pd.to_datetime(last_timestamp)\<close>,
      \<open>None\<close> where parsing the text or comparing with the result raises. The function assigns to no global: the cache it returns
      is the one it was given.\<close>
  "get_bucket_data_since c bucket symbol found_ts_id last_dt =
     (let cache_key = resolve_cache_key bucket symbol found_ts_id
      in case map_of (DATA_CACHE c) cache_key of
           None \<Rightarrow>
             (c, Http_failure 404 (''Symbol '' @ symbol @ '' not found in bucket '' @ bucket))
         | Some df \<Rightarrow>
             (case last_dt of
                None \<Rightarrow> (c, Http_failure 500 ''Failed to get incremental data'')
              | Some t0 \<Rightarrow>
                  (case map_of df ''timestamp'' of
                     Some (TimeCol ts) \<Rightarrow>
                       (let newer = map (\<lambda>t. t > t0) ts;
                            new_data = select newer df
                        in if len new_data = 0 then (c, No_new_data)
                           else (c, since_payload (filter (\<lambda>t. t > t0) ts) new_data))
                   | _ \<Rightarrow> (c, Http_failure 500 ''Failed to get incremental data''))))"


text \<open>
  The words of the specification: the suffix of a series, and a frame whose columns all
  have the same number of rows.
\<close>

fun drop_col :: "nat \<Rightarrow> column \<Rightarrow> column" where
  "drop_col n (FloatCol xs) = FloatCol (drop n xs)"
| "drop_col n (BoolCol xs) = BoolCol (drop n xs)"
| "drop_col n (TimeCol xs) = TimeCol (drop n xs)"

definition suffix_from :: "nat \<Rightarrow> frame \<Rightarrow> frame" where
  \<comment> \<open>the frame without its first \<open>n\<close> rows: a suffix of the full series\<close>
  "suffix_from n df = map (\<lambda>(name, c). (name, drop_col n c)) df"

definition rectangular :: "nat \<Rightarrow> frame \<Rightarrow> bool" where
  \<comment> \<open>every column has \<open>n\<close> rows\<close>
  "rectangular n df = list_all (\<lambda>(name, c). col_len c = n) df"

text \<open>
  A cache holding one series of three one-minute samples under the key \<open>demo/TS-1\<close>.
\<close>

definition ex_cached :: frame where
  "ex_cached = [(''timestamp'', TimeCol [60000000000, 120000000000, 180000000000]),
                (''close'', FloatCol [Fin 100, Fin 110, Fin 121]),
                (''position'', FloatCol [Fin 0, Fin 1, Fin 1]),
                (''cumulative_return'', FloatCol [Fin 0, Fin 0, Fin (1 / 10)])]"

definition cache1 :: cache where
  "cache1 = \<lparr>DATA_CACHE = [(''demo/TS-1'', ex_cached)], LAST_MODIFIED = [(''demo/TS-1'', 10)],
             data_version = 2, last_data_update = 0, loads = []\<rparr>"

section \<open>Summary aggregator\<close>

definition iloc :: "'a list \<Rightarrow> int \<Rightarrow> 'a option" where
  \<comment> \<open>\<open>s.iloc[i]\<close>: a negative position counts from the end; \<open>None\<close> is IndexError\<close>
  "iloc xs i =
     (if 0 \<le> i \<and> i < int (length xs) then Some (xs ! nat i)
      else if i < 0 \<and> - i \<le> int (length xs) then Some (xs ! nat (int (length xs) + i))
      else None)"

definition percent_change :: "fval \<Rightarrow> fval \<Rightarrow> fval" where
  \<comment> \<open>\<open>((last_price - price_ago) / price_ago) * 100\<close>\<close>
  "percent_change last_price price_ago =
     fmul (fdiv (fsub last_price price_ago) price_ago) (Fin 100)"

definition price_changes :: "fval list \<Rightarrow> (fval \<times> fval \<times> fval) option" where
  \<comment> \<open>Lines 1145 to 1161 of \<open>process_symbol\<close>, on the \<open>close\<close> column of a frame that passed
      the test of line 1143: \<open>last_price\<close>, \<open>change_24h\<close> and \<open>change_7d\<close>, before they are
      rounded for display. \<open>None\<close> is an exception, which drops the symbol (line 1212).\<close>
  "price_changes close =
     (case iloc close (- 1) of
        None \<Rightarrow> None
      | Some last_price \<Rightarrow>
          (case (if length close > 1440 then
                   (case iloc close (- 1440) of
                      None \<Rightarrow> None
                    | Some price_24h_ago \<Rightarrow> Some (percent_change last_price price_24h_ago))
                 else Some (Fin 0)) of
             None \<Rightarrow> None
           | Some change_24h \<Rightarrow>
               (case (if length close > 10080 then iloc close (- 10080) else iloc close 0) of
                  None \<Rightarrow> None
                | Some price_7d_ago \<Rightarrow>
                    Some (last_price, change_24h, percent_change last_price price_7d_ago))))"

text \<open>
  The per-symbol dict of lines 1189 to 1209, reduced to the entries that identify the
  symbol.
\<close>

record summary_row =
  bucket_raw :: string
  symbol :: string
  ts_id :: string

definition as_completed :: "nat list \<Rightarrow> 'a list \<Rightarrow> 'a list" where
  \<comment> \<open>The results of the submitted futures in the order in which they complete.
      \<open>completion\<close> lists the positions of the futures in that order: it is decided by the
      scheduler, not by the program.\<close>
  "as_completed completion futures =
     map (\<lambda>i. futures ! i) (filter (\<lambda>i. i < length futures) completion)"

definition process_bucket_summary ::
  "nat list \<Rightarrow> summary_row option list \<Rightarrow> summary_row list" where
  \<comment> \<open>lines 1215 to 1223: \<open>results\<close> are the values of \<open>process_symbol\<close> on the bucket's
      symbols, in the order of \<open>symbols_info\<close>\<close>
  "process_bucket_summary completion results =
     concat (map (\<lambda>result. case result of None \<Rightarrow> [] | Some row \<Rightarrow> [row])
       (as_completed completion results))"

definition summary_symbols ::
  "nat list \<Rightarrow> (nat list \<times> summary_row option list) list \<Rightarrow> summary_row list" where
  \<comment> \<open>Lines 1226 to 1231 and 1292 of \<open>get_symbols_summary\<close>: the list under \<open>'symbols'\<close> of
      the response is \<open>summary_data\<close> as the loop leaves it.\<close>
  "summary_symbols completion buckets =
     concat (as_completed completion
       (map (\<lambda>(symbol_completion, results). process_bucket_summary symbol_completion results)
          buckets))"

text \<open>Two symbols of one bucket.\<close>

definition btc_row :: summary_row where
  "btc_row = \<lparr>bucket_raw = ''demo'', symbol = ''BTC'', ts_id = ''1''\<rparr>"

definition eth_row :: summary_row where
  "eth_row = \<lparr>bucket_raw = ''demo'', symbol = ''ETH'', ts_id = ''2''\<rparr>"

section \<open>Resampler\<close>

datatype period = P_1h | P_30min | P_15min | P_5min

fun period_ns :: "period \<Rightarrow> int" where
  \<comment> \<open>the bucket width in nanoseconds\<close>
  "period_ns P_1h = 3600000000000"
| "period_ns P_30min = 1800000000000"
| "period_ns P_15min = 900000000000"
| "period_ns P_5min = 300000000000"

datatype py_error = KeyError string | TypeError | ValueError

definition auto_period :: "nat \<Rightarrow> period option" where
  \<comment> \<open>lines 329 to 338\<close>
  "auto_period total_rows =
     (if total_rows > 50000 then Some P_1h
      else if total_rows > 20000 then Some P_30min
      else if total_rows > 10000 then Some P_15min
      else if total_rows > 5000 then Some P_5min
      else None)"

definition agg_dict :: "frame \<Rightarrow> string list" where
  \<comment> \<open>the keys of \<open>agg_dict\<close>, lines 346 to 364, in insertion order; every value is \<open>'last'\<close>\<close>
  "agg_dict df_copy =
     (if ''close'' \<in> set (columns df_copy) then [''close'']
      else if ''Close'' \<in> set (columns df_copy) then [''Close''] else [])
     @ (if ''position'' \<in> set (columns df_copy) then [''position'']
        else if ''Position'' \<in> set (columns df_copy) then [''Position''] else [])
     @ (if ''cumulative_return'' \<in> set (columns df_copy) then [''cumulative_return''] else [])
     @ (if ''cumulative_return_after_fees'' \<in> set (columns df_copy)
        then [''cumulative_return_after_fees''] else [])"

fun valid_at :: "column \<Rightarrow> nat \<Rightarrow> bool" where
  \<comment> \<open>the cell of the row is not missing\<close>
  "valid_at (FloatCol xs) i = (xs ! i \<noteq> NaN)"
| "valid_at (BoolCol xs) i = True"
| "valid_at (TimeCol xs) i = True"

definition last_valid :: "column \<Rightarrow> nat list \<Rightarrow> nat option" where
  \<comment> \<open>\<open>'last'\<close> on the rows of one bucket: the row of the last cell that is not missing\<close>
  "last_valid col rows =
     (case filter (valid_at col) rows of [] \<Rightarrow> None | r # rs \<Rightarrow> Some (last (r # rs)))"

fun take_rows :: "column \<Rightarrow> nat list \<Rightarrow> column" where
  "take_rows (FloatCol xs) rows = FloatCol (map (\<lambda>i. xs ! i) rows)"
| "take_rows (BoolCol xs) rows = BoolCol (map (\<lambda>i. xs ! i) rows)"
| "take_rows (TimeCol xs) rows = TimeCol (map (\<lambda>i. xs ! i) rows)"

definition bucket_rows :: "int \<Rightarrow> int list \<Rightarrow> nat list \<Rightarrow> int \<Rightarrow> nat list" where
  \<comment> \<open>the rows whose timestamp falls in the bucket \<open>[k * width, (k + 1) * width)\<close>\<close>
  "bucket_rows width ts order k = filter (\<lambda>i. ts ! i div width = k) order"

definition resample_last ::
  "int \<Rightarrow> string \<Rightarrow> int list \<Rightarrow> (string \<times> column) list \<Rightarrow> frame" where
  \<comment> \<open>\<open>df_copy.resample(period).agg(agg_dict).dropna()\<close> and \<open>reset_index\<close>, lines 366 to
      369. The rows are taken in timestamp order (a stable sort); the buckets are aligned
      to multiples of the width and run from the bucket of the first timestamp to that
      of the last; each aggregated column has, per bucket, its last cell that is not
      missing; a bucket where some column has none is dropped; the bucket's left edge
      becomes its timestamp.\<close>
  "resample_last width timestamp_col ts agg =
     (let order = sort_key (\<lambda>i. ts ! i) [0..<length ts];
          buckets = [ts ! hd order div width .. ts ! last order div width];
          kept = filter (\<lambda>k. list_all (\<lambda>(name, col).
                    last_valid col (bucket_rows width ts order k) \<noteq> None) agg) buckets
      in (timestamp_col, TimeCol (map (\<lambda>k. k * width) kept)) #
         map (\<lambda>(name, col).
               (name, take_rows col
                  (map (\<lambda>k. the (last_valid col (bucket_rows width ts order k))) kept)))
           agg)"

definition get_resampled_data :: "frame \<Rightarrow> period option \<Rightarrow> py_error + frame" where
  \<comment> \<open>Lines 317 to 372. \<open>set_index\<close> raises KeyError when the frame has neither a
      \<open>timestamp\<close> nor a \<open>datetime\<close> column, \<open>resample\<close> raises TypeError when that column
      does not hold datetimes, and \<open>agg\<close> raises ValueError on an empty \<open>agg_dict\<close>.\<close>
  "get_resampled_data df resample_period =
     (if df_empty df then Inr df
      else
        (let total_rows = len df
         in case (case resample_period of None \<Rightarrow> auto_period total_rows | Some p \<Rightarrow> Some p) of
              None \<Rightarrow> Inr df
            | Some p \<Rightarrow>
                (let timestamp_col =
                       (if ''timestamp'' \<in> set (columns df) then ''timestamp'' else ''datetime'')
                 in case map_of df timestamp_col of
                      None \<Rightarrow> Inl (KeyError timestamp_col)
                    | Some (TimeCol ts) \<Rightarrow>
                        (let df_copy = AList.delete timestamp_col df;
                             agg = map (\<lambda>name. (name, the (map_of df_copy name))) (agg_dict df_copy)
                         in if agg = [] then Inl ValueError
                            else Inr (resample_last (period_ns p) timestamp_col ts agg))
                    | Some _ \<Rightarrow> Inl TypeError)))"

text \<open>
  Four samples, at 00:30, 00:59, 01:00 and 03:00, the third with no price.
\<close>

definition ex_minutes :: frame where
  "ex_minutes = [(''timestamp'', TimeCol [1800000000000, 3540000000000, 3600000000000, 10800000000000]),
                (''close'', FloatCol [Fin 100, Fin 110, NaN, Fin 130]),
                (''position'', FloatCol [Fin 0, Fin 1, Fin 1, Fin 1])]"



definition minute_grid :: "int \<Rightarrow> nat \<Rightarrow> int list" where
  \<comment> \<open>\<open>n\<close> timestamps one minute apart, the first at \<open>t0\<close>\<close>
  "minute_grid t0 n = map (\<lambda>i. t0 + int i * 60000000000) [0..<n]"

definition ex_60000 :: frame where
  \<comment> \<open>60,000 one-minute samples, the first at 00:30 on the first of January 1970\<close>
  "ex_60000 = [(''timestamp'', TimeCol (minute_grid 1800000000000 60000)),
               (''close'', FloatCol (replicate 60000 (Fin 100)))]"

section \<open>Properties of the metrics engine\<close>

lemma map_of_setcol:
  "map_of (setcol k c df) k' = (if k' = k then Some c else map_of df k')"
  by (simp add: setcol_def update_conv')

lemma columns_setcol:
  "set (columns (setcol k c df)) = insert k (set (columns df))"
proof -
  have "fst ` set (AList.update k c df) = insert k (fst ` set df)"
    by (induction df) auto
  then show ?thesis
    by (simp add: setcol_def columns_def)
qed

lemma capped_cell:
  "clip1 (Fin (- (99 / 100))) (Fin 1) x = NaN \<or> in_cap (clip1 (Fin (- (99 / 100))) (Fin 1) x)"
  by (cases x) (auto simp: clip1_def fgt_def in_cap_def)

lemma capped_column:
  assumes "x \<in> set (fillna (Fin 0) (clip (Fin (- (99 / 100))) (Fin 1) xs))"
  shows "in_cap x"
proof -
  from assms obtain y where
    x: "x = (if clip1 (Fin (- (99 / 100))) (Fin 1) y = NaN then Fin 0
             else clip1 (Fin (- (99 / 100))) (Fin 1) y)"
    unfolding fillna_def clip_def by force
  show ?thesis
  proof (cases "clip1 (Fin (- (99 / 100))) (Fin 1) y = NaN")
    case True
    with x show ?thesis by (simp add: in_cap_def)
  next
    case False
    with x capped_cell [of y] show ?thesis by simp
  qed
qed

lemma length_shift1: "length (shift1 xs) = length xs"
  by (cases xs) (simp_all add: shift1_def)

lemma length_ffill_from: "length (ffill_from p xs) = length xs"
  by (induction xs arbitrary: p) simp_all

lemma length_pct_change: "length (pct_change xs) = length xs"
  by (simp add: pct_change_def Let_def ffill_def length_ffill_from length_shift1)

lemma length_diff: "length (diff xs) = length xs"
  by (simp add: diff_def length_shift1)

lemma length_cumprod_from: "length (cumprod_from a xs) = length xs"
  by (induction xs arbitrary: a) simp_all

lemma length_cumprod: "length (cumprod xs) = length xs"
  by (simp add: cumprod_def length_cumprod_from)

lemma length_fillna: "length (fillna v xs) = length xs"
  by (simp add: fillna_def)

lemma length_clip: "length (clip lo hi xs) = length xs"
  by (simp add: clip_def)

lemma length_replace_inf: "length (replace_inf v xs) = length xs"
  by (simp add: replace_inf_def)

lemmas series_lengths = length_shift1 length_pct_change length_diff length_cumprod
  length_fillna length_clip length_replace_inf

lemma derived_cumulative_return:
  "\<exists>cr. map_of (derived_columns fee close position df) ''cumulative_return'' =
        Some (FloatCol cr) \<and> length cr = min (length close) (length position)
        \<and> (\<forall>x \<in> set cr. in_cap x)"
  by (auto simp: derived_columns_def Let_def map_of_setcol series_lengths intro: capped_column)

lemma derived_cumulative_return_after_fees:
  "\<exists>cr. map_of (derived_columns fee close position df) ''cumulative_return_after_fees'' =
        Some (FloatCol cr) \<and> length cr = min (length close) (length position)
        \<and> (\<forall>x \<in> set cr. in_cap x)"
  by (auto simp: derived_columns_def Let_def map_of_setcol series_lengths intro: capped_column)

text \<open>
  C1: whenever the derived columns are computed (no \<open>cumulative_return\<close> column yet, numeric
  \<open>close\<close> and \<open>position\<close> columns), the result has a \<open>cumulative_return\<close> and a
  \<open>cumulative_return_after_fees\<close> column with one cell per sample, and every cell of both
  is a finite number between -0.99 and 1.00. Where the computation raises instead, the
  result is the empty frame, which has no sample.
\<close>

theorem cumulative_returns_capped:
  assumes "needs_derived df"
    and "get_float df ''close'' = Some close"
    and "get_float df ''position'' = Some position"
    and "length position = length close"
  shows "\<exists>cr crf.
     get_float (compute_derived fee_percent df) ''cumulative_return'' = Some cr \<and>
     get_float (compute_derived fee_percent df) ''cumulative_return_after_fees'' = Some crf \<and>
     length cr = length close \<and> length crf = length close \<and>
     (\<forall>x \<in> set cr. in_cap x) \<and> (\<forall>x \<in> set crf. in_cap x)"
proof -
  have cd: "compute_derived fee_percent df = derived_columns fee_percent close position df"
    using assms by (simp add: compute_derived_def)
  obtain cr where cr:
    "map_of (derived_columns fee_percent close position df) ''cumulative_return'' =
       Some (FloatCol cr)"
    "length cr = min (length close) (length position)" "\<forall>x \<in> set cr. in_cap x"
    using derived_cumulative_return by blast
  obtain crf where crf:
    "map_of (derived_columns fee_percent close position df) ''cumulative_return_after_fees'' =
       Some (FloatCol crf)"
    "length crf = min (length close) (length position)" "\<forall>x \<in> set crf. in_cap x"
    using derived_cumulative_return_after_fees by blast
  show ?thesis
    using cr crf assms(4) by (simp add: cd get_float_def)
qed

theorem cumulative_returns_capped_witness:
  "needs_derived ex1 \<and> get_float ex1 ''close'' = Some [Fin 100, Fin 110, Fin 121] \<and>
   get_float ex1 ''position'' = Some [Fin 0, Fin 1, Fin 1] \<and>
   (\<exists>cr crf.
     get_float (compute_derived 1 ex1) ''cumulative_return'' = Some cr \<and>
     get_float (compute_derived 1 ex1) ''cumulative_return_after_fees'' = Some crf \<and>
     length cr = 3 \<and> length crf = 3 \<and>
     (\<forall>x \<in> set cr. in_cap x) \<and> (\<forall>x \<in> set crf. in_cap x))"
proof -
  have a: "needs_derived ex1"
    by (simp add: ex1_def needs_derived_def columns_def)
  have b: "get_float ex1 ''close'' = Some [Fin 100, Fin 110, Fin 121]"
    by (simp add: ex1_def get_float_def)
  have c: "get_float ex1 ''position'' = Some [Fin 0, Fin 1, Fin 1]"
    by (simp add: ex1_def get_float_def)
  show ?thesis
    using a b c cumulative_returns_capped [OF a b c, of 1] by (simp add: numeral_3_eq_3)
qed


lemmas eval_frame = compute_derived_def needs_derived_def columns_def get_float_def
  derived_columns_def Let_def map_of_setcol diff_def shift1_def fsub_def fne_def
  pct_change_def ffill_def fillna_def replace_inf_def cumprod_def clip_def clip1_def fgt_def

lemma fsub_nan: "fsub x NaN = NaN"
  by (cases x) (simp_all add: fsub_def)

lemma first_transaction_cost_is_nan:
  assumes "needs_derived df"
    and "get_float df ''close'' = Some (c # close)"
    and "get_float df ''position'' = Some (p # position)"
  shows "\<exists>costs. get_float (compute_derived fee_percent df) ''transaction_cost'' = Some (NaN # costs)"
  using assms
  by (simp add: compute_derived_def derived_columns_def Let_def map_of_setcol get_float_def
      diff_def shift1_def fsub_nan fne_def pct_change_def ffill_def fillna_def replace_inf_def)

text \<open>
  C3: for a series whose position never changes and a fee of 0.05 percent, the first
  sample's \<open>transaction_cost\<close> is NaN, not 0, and its \<open>strategy_returns_after_fees\<close> is NaN
  while its \<open>strategy_returns\<close> is 0: \<open>position.diff()\<close> is NaN on the first row, NaN
  differs from 0, so the first row counts as a trade of size NaN.
\<close>

theorem transaction_cost_nan_on_first_row:
  "get_float (compute_derived (1 / 20) ex_flat) ''transaction_cost'' = Some [NaN, Fin 0, Fin 0] \<and>
   get_float (compute_derived (1 / 20) ex_flat) ''strategy_returns'' =
     Some [Fin 0, Fin (1 / 10), Fin (1 / 10)] \<and>
   get_float (compute_derived (1 / 20) ex_flat) ''strategy_returns_after_fees'' =
     Some [NaN, Fin (1 / 10), Fin (1 / 10)]"
  by (simp add: ex_flat_def eval_frame)

lemma derived_has_cumulative_return:
  "''cumulative_return'' \<in> set (columns (derived_columns fee close position df))"
  by (simp add: derived_columns_def Let_def columns_setcol)

text \<open>
  C4: a frame that already has a \<open>cumulative_return\<close> column is returned as it is, and
  computing the derived columns twice gives the same frame as computing them once.
\<close>

theorem compute_derived_idempotent:
  "(''cumulative_return'' \<in> set (columns df) \<longrightarrow> compute_derived fee_percent df = df) \<and>
   compute_derived fee_percent (compute_derived fee_percent df) = compute_derived fee_percent df"
proof
  show "''cumulative_return'' \<in> set (columns df) \<longrightarrow> compute_derived fee_percent df = df"
    by (simp add: compute_derived_def needs_derived_def)
next
  show "compute_derived fee_percent (compute_derived fee_percent df) = compute_derived fee_percent df"
  proof (cases "needs_derived df")
    case False
    then show ?thesis by (simp add: compute_derived_def)
  next
    case True
    show ?thesis
    proof (cases "\<exists>close position. get_float df ''close'' = Some close
                    \<and> get_float df ''position'' = Some position")
      case True
      then obtain close position where
        "get_float df ''close'' = Some close" "get_float df ''position'' = Some position"
        by blast
      with \<open>needs_derived df\<close>
      have "compute_derived fee_percent df = derived_columns fee_percent close position df"
        by (simp add: compute_derived_def)
      moreover have "\<not> needs_derived (derived_columns fee_percent close position df)"
        using derived_has_cumulative_return by (simp add: needs_derived_def)
      ultimately show ?thesis
        by (simp add: compute_derived_def)
    next
      case False
      with \<open>needs_derived df\<close> have "compute_derived fee_percent df = []"
        by (auto simp: compute_derived_def split: option.splits)
      then show ?thesis
        by (simp add: compute_derived_def needs_derived_def columns_def)
    qed
  qed
qed

theorem compute_derived_idempotent_witness:
  "''cumulative_return'' \<in> set (columns ex_done) \<and> compute_derived 1 ex_done = ex_done \<and>
   compute_derived 1 (compute_derived 1 ex_done) = compute_derived 1 ex_done"
proof -
  have h: "''cumulative_return'' \<in> set (columns ex_done)"
    by (simp add: ex_done_def columns_def)
  show ?thesis
    using h compute_derived_idempotent [of ex_done 1] by simp
qed

section \<open>Properties of the cache manager\<close>

text \<open>
  C5: for a key that has a cached frame and a stored modification time, both
  \<open>get_bucket_data\<close> and the refresh loop call the loader only for a file whose
  modification time is strictly greater than the stored one; and when that call returns
  an empty frame, the cached frame, the stored time and the version stay as they were,
  and \<open>get_bucket_data\<close> answers with the cached frame.
\<close>

theorem reload_only_when_newer:
  assumes "map_of (DATA_CACHE c) cache_key = Some cached"
    and "map_of (LAST_MODIFIED c) cache_key = Some stored"
    and "get_bucket_data_cache fs now cache_key csv_path c = (c1, r)"
    and "refresh_key fs find_csv now c cache_key = c2"
  shows "(loads c1 \<noteq> loads c \<longrightarrow>
            loads c1 = loads c @ [csv_path] \<and>
            (\<exists>m. getmtime fs csv_path = Some m \<and> stored < m)) \<and>
         (loads c1 \<noteq> loads c \<and> df_empty (load_csv_data_from_path fs csv_path) \<longrightarrow>
            DATA_CACHE c1 = DATA_CACHE c \<and> LAST_MODIFIED c1 = LAST_MODIFIED c \<and>
            data_version c1 = data_version c \<and> r = Ok cached) \<and>
         (loads c2 \<noteq> loads c \<longrightarrow>
            (\<exists>p m. loads c2 = loads c @ [p] \<and> getmtime fs p = Some m \<and> stored < m)) \<and>
         (\<forall>p. loads c2 = loads c @ [p] \<and> df_empty (load_csv_data_from_path fs p) \<longrightarrow>
            DATA_CACHE c2 = DATA_CACHE c \<and> LAST_MODIFIED c2 = LAST_MODIFIED c \<and>
            data_version c2 = data_version c)"
proof -
  have a: "loads c1 \<noteq> loads c \<longrightarrow>
            loads c1 = loads c @ [csv_path] \<and>
            (\<exists>m. getmtime fs csv_path = Some m \<and> stored < m)"
    using assms(1-3)
    by (auto simp: get_bucket_data_cache_def Let_def store_def split: option.splits if_splits)
  have b: "loads c1 \<noteq> loads c \<and> df_empty (load_csv_data_from_path fs csv_path) \<longrightarrow>
            DATA_CACHE c1 = DATA_CACHE c \<and> LAST_MODIFIED c1 = LAST_MODIFIED c \<and>
            data_version c1 = data_version c \<and> r = Ok cached"
    using assms(1-3)
    by (auto simp: get_bucket_data_cache_def Let_def store_def split: option.splits if_splits)
  have c: "loads c2 \<noteq> loads c \<longrightarrow>
            (\<exists>p m. loads c2 = loads c @ [p] \<and> getmtime fs p = Some m \<and> stored < m)"
    using assms(2,4)
    by (auto simp: refresh_key_def Let_def store_def split: option.splits if_splits)
  have d: "\<forall>p. loads c2 = loads c @ [p] \<and> df_empty (load_csv_data_from_path fs p) \<longrightarrow>
            DATA_CACHE c2 = DATA_CACHE c \<and> LAST_MODIFIED c2 = LAST_MODIFIED c \<and>
            data_version c2 = data_version c"
    using assms(2,4)
    by (auto simp: refresh_key_def Let_def store_def split: option.splits if_splits)
  from a b c d show ?thesis by blast
qed

theorem reload_only_when_newer_witness:
  "map_of (DATA_CACHE cache0) ''demo/TS-1'' = Some ex_done \<and>
   map_of (LAST_MODIFIED cache0) ''demo/TS-1'' = Some 10 \<and>
   getmtime files0 ''./buckets/demo/x.csv'' = Some 20 \<and>
   df_empty (load_csv_data_from_path files0 ''./buckets/demo/x.csv'') \<and>
   loads (fst (get_bucket_data_cache files0 5 ''demo/TS-1'' ''./buckets/demo/x.csv'' cache0)) =
     [''./buckets/demo/x.csv''] \<and>
   DATA_CACHE (fst (get_bucket_data_cache files0 5 ''demo/TS-1'' ''./buckets/demo/x.csv'' cache0)) =
     DATA_CACHE cache0 \<and>
   LAST_MODIFIED (fst (get_bucket_data_cache files0 5 ''demo/TS-1'' ''./buckets/demo/x.csv'' cache0)) =
     LAST_MODIFIED cache0 \<and>
   snd (get_bucket_data_cache files0 5 ''demo/TS-1'' ''./buckets/demo/x.csv'' cache0) = Ok ex_done \<and>
   loads (refresh_key files0 find0 5 cache0 ''demo/TS-1'') = [''./buckets/demo/x.csv''] \<and>
   DATA_CACHE (refresh_key files0 find0 5 cache0 ''demo/TS-1'') = DATA_CACHE cache0 \<and>
   LAST_MODIFIED (refresh_key files0 find0 5 cache0 ''demo/TS-1'') = LAST_MODIFIED cache0"
proof -
  let ?p = "''./buckets/demo/x.csv''"
  let ?g = "get_bucket_data_cache files0 5 ''demo/TS-1'' ?p cache0"
  let ?r = "refresh_key files0 find0 5 cache0 ''demo/TS-1''"
  have h1: "map_of (DATA_CACHE cache0) ''demo/TS-1'' = Some ex_done"
    by (simp add: cache0_def)
  have h2: "map_of (LAST_MODIFIED cache0) ''demo/TS-1'' = Some 10"
    by (simp add: cache0_def)
  have h3: "?g = (fst ?g, snd ?g)"
    by simp
  have m: "getmtime files0 ?p = Some 20"
    by (simp add: getmtime_def files0_def)
  have e: "df_empty (load_csv_data_from_path files0 ?p)"
    by (simp add: load_csv_data_from_path_def files0_def df_empty_def)
  have l1: "loads (fst ?g) = [?p]"
    using h1 h2 m e by (simp add: get_bucket_data_cache_def Let_def cache0_def)
  have l2: "loads ?r = [?p]"
    using h2 m e
    by (simp add: refresh_key_def startswith_def find0_def Let_def cache0_def)
  have l0: "loads cache0 = []"
    by (simp add: cache0_def)
  show ?thesis
    using reload_only_when_newer [OF h1 h2 h3 refl, of find0] h1 h2 m e l1 l2 l0
    by simp
qed

section \<open>Properties of the incremental differ\<close>

lemma keep_all:
  "length xs = length ts \<Longrightarrow> \<forall>t \<in> set ts. P t \<Longrightarrow>
   map snd (filter fst (zip (map P ts) xs)) = xs"
  by (induction ts arbitrary: xs) (auto simp: length_Suc_conv)

lemma keep_newer_is_drop:
  "length xs = length ts \<Longrightarrow> sorted (ts :: int list) \<Longrightarrow>
   map snd (filter fst (zip (map (\<lambda>t. t > t0) ts) xs)) =
     drop (length (filter (\<lambda>t. t \<le> t0) ts)) xs"
proof (induction ts arbitrary: xs)
  case Nil
  then show ?case by simp
next
  case (Cons t ts)
  then obtain x xs' where xs: "xs = x # xs'" "length xs' = length ts"
    by (auto simp: length_Suc_conv)
  show ?case
  proof (cases "t \<le> t0")
    case True
    with Cons xs show ?thesis by simp
  next
    case False
    with Cons.prems(2) have all: "\<forall>u \<in> set (t # ts). u > t0"
      by auto
    then have "filter (\<lambda>t. t \<le> t0) (t # ts) = []"
      by (auto simp: filter_empty_conv)
    moreover have "map snd (filter fst (zip (map (\<lambda>t. t > t0) (t # ts)) xs)) = xs"
      using keep_all [of xs "t # ts" "\<lambda>t. t > t0"] Cons.prems(1) all by blast
    ultimately show ?thesis by simp
  qed
qed

lemma keep_rows_length:
  "length xs = length ts \<Longrightarrow>
   length (filter fst (zip (map P ts) xs)) = length (filter P ts)"
  by (induction ts arbitrary: xs) (auto simp: length_Suc_conv)

lemma col_len_select_rows:
  "col_len col = length ts \<Longrightarrow> col_len (select_rows (map P ts) col) = length (filter P ts)"
  by (cases col) (simp_all add: keep_rows_length)

lemma select_rows_sorted:
  "col_len col = length ts \<Longrightarrow> sorted (ts :: int list) \<Longrightarrow>
   select_rows (map (\<lambda>t. t > t0) ts) col = drop_col (length (filter (\<lambda>t. t \<le> t0) ts)) col"
  by (cases col) (simp_all add: keep_newer_is_drop)

lemma map_of_select:
  "map_of (select keep df) name = map_option (select_rows keep) (map_of df name)"
  by (induction df) (auto simp: select_def)

lemma select_timestamps:
  "select_rows (map P ts) (TimeCol ts) = TimeCol (filter P ts)"
proof -
  have "map snd (filter fst (zip (map P ts) ts)) = filter P ts"
    by (induction ts) auto
  then show ?thesis by simp
qed

lemma len_select:
  assumes "rectangular (length ts) df" and "df \<noteq> []"
  shows "len (select (map P ts) df) = length (filter P ts)"
proof -
  from assms obtain name col rest where df: "df = (name, col) # rest"
    by (cases df) auto
  with assms(1) have "col_len col = length ts"
    by (simp add: rectangular_def)
  then show ?thesis
    by (simp add: df select_def len_def col_len_select_rows)
qed


lemma select_sorted:
  assumes "rectangular (length ts) df" and "sorted (ts :: int list)"
  shows "select (map (\<lambda>t. t > t0) ts) df = suffix_from (length (filter (\<lambda>t. t \<le> t0) ts)) df"
  using assms
  by (induction df) (auto simp: select_def suffix_from_def rectangular_def select_rows_sorted)

lemma newer_than_last:
  assumes "sorted (ts :: int list)" and "ts \<noteq> []"
  shows "filter (\<lambda>t. t > last ts) ts = []"
proof -
  have "\<forall>t \<in> set ts. t \<le> last ts"
    using assms by (metis in_set_conv_nth last_conv_nth sorted_nth_mono
        Suc_pred' length_greater_0_conv less_Suc_eq_le order_refl)
  then show ?thesis
    by (auto simp: filter_empty_conv)
qed

lemma since_parts:
  assumes "map_of (DATA_CACHE c) (resolve_cache_key bucket name found) = Some df"
    and "map_of df ''timestamp'' = Some (TimeCol ts)"
    and "rectangular (length ts) df"
  shows "snd (get_bucket_data_since c bucket name found (Some t0)) =
           (if filter (\<lambda>t. t > t0) ts = [] then No_new_data
            else since_payload (filter (\<lambda>t. t > t0) ts) (select (map (\<lambda>t. t > t0) ts) df))"
    and "map_of (select (map (\<lambda>t. t > t0) ts) df) ''timestamp'' =
           Some (TimeCol (filter (\<lambda>t. t > t0) ts))"
    and "map_of df ''close'' = Some (FloatCol cs) \<longrightarrow>
         map_of (select (map (\<lambda>t. t > t0) ts) df) ''close'' =
           Some (FloatCol (map snd (filter (\<lambda>(t, x). t > t0) (zip ts cs))))"
    and "sorted ts \<longrightarrow>
         select (map (\<lambda>t. t > t0) ts) df = suffix_from (length (filter (\<lambda>t. t \<le> t0) ts)) df"
    and "sorted ts \<and> ts \<noteq> [] \<and> t0 = last ts \<longrightarrow>
         snd (get_bucket_data_since c bucket name found (Some t0)) = No_new_data"
proof -
  have ne: "df \<noteq> []"
    using assms(2) by auto
  show r: "snd (get_bucket_data_since c bucket name found (Some t0)) =
           (if filter (\<lambda>t. t > t0) ts = [] then No_new_data
            else since_payload (filter (\<lambda>t. t > t0) ts) (select (map (\<lambda>t. t > t0) ts) df))"
    using assms(1,2) len_select [OF assms(3) ne, of "\<lambda>t. t > t0"]
    by (simp add: get_bucket_data_since_def Let_def)
  show "map_of (select (map (\<lambda>t. t > t0) ts) df) ''timestamp'' =
           Some (TimeCol (filter (\<lambda>t. t > t0) ts))"
    using assms(2) by (simp add: map_of_select select_timestamps del: select_rows.simps)
  show "map_of df ''close'' = Some (FloatCol cs) \<longrightarrow>
         map_of (select (map (\<lambda>t. t > t0) ts) df) ''close'' =
           Some (FloatCol (map snd (filter (\<lambda>(t, x). t > t0) (zip ts cs))))"
  proof
    assume "map_of df ''close'' = Some (FloatCol cs)"
    moreover have "map snd (filter fst (zip (map (\<lambda>t. t > t0) ts) cs)) =
        map snd (filter (\<lambda>(t, x). t > t0) (zip ts cs))"
      by (induction ts arbitrary: cs) (auto simp: zip_Cons1 split: list.splits)
    ultimately show "map_of (select (map (\<lambda>t. t > t0) ts) df) ''close'' =
           Some (FloatCol (map snd (filter (\<lambda>(t, x). t > t0) (zip ts cs))))"
      by (simp add: map_of_select)
  qed
  show "sorted ts \<longrightarrow>
         select (map (\<lambda>t. t > t0) ts) df = suffix_from (length (filter (\<lambda>t. t \<le> t0) ts)) df"
    using select_sorted [OF assms(3)] by blast
  show "sorted ts \<and> ts \<noteq> [] \<and> t0 = last ts \<longrightarrow>
         snd (get_bucket_data_since c bucket name found (Some t0)) = No_new_data"
  proof
    assume a: "sorted ts \<and> ts \<noteq> [] \<and> t0 = last ts"
    then have "filter (\<lambda>t. t > t0) ts = []"
      using newer_than_last [of ts] by simp
    with r show "snd (get_bucket_data_since c bucket name found (Some t0)) = No_new_data"
      by simp
  qed
qed

lemma keep_zip:
  "map snd (filter fst (zip (map P ts) xs)) = map snd (filter (\<lambda>(t, x). P t) (zip ts xs))"
  by (induction ts arbitrary: xs) (auto simp: zip_Cons1 split: list.splits)

lemma rectangular_col:
  "rectangular n df \<Longrightarrow> map_of df name = Some col \<Longrightarrow> col_len col = n"
  by (auto simp: rectangular_def list_all_iff dest: map_of_SomeD)

lemma newer_is_drop:
  "sorted (ts :: int list) \<Longrightarrow>
   filter (\<lambda>t. t > t0) ts = drop (length (filter (\<lambda>t. t \<le> t0) ts)) ts"
proof -
  assume s: "sorted ts"
  have "map snd (filter fst (zip (map (\<lambda>t. t > t0) ts) ts)) = filter (\<lambda>t. t > t0) ts"
    by (induction ts) auto
  then show ?thesis
    using keep_newer_is_drop [of ts ts t0] s by simp
qed

lemma none_newer_iff:
  "(filter (\<lambda>t. t > t0) ts = []) = (length (filter (\<lambda>t. t \<le> t0) ts) = length (ts :: int list))"
proof -
  have "(\<lambda>t. \<not> t \<le> t0) = (\<lambda>t. t > t0)"
    by auto
  then have "length (filter (\<lambda>t. t \<le> t0) ts) + length (filter (\<lambda>t. t > t0) ts) = length ts"
    using sum_length_filter_compl [of "\<lambda>t. t \<le> t0" ts] by simp
  then show ?thesis
    by auto
qed

lemma since_response:
  assumes "map_of (DATA_CACHE c) (resolve_cache_key bucket name found) = Some df"
    and "map_of df ''timestamp'' = Some (TimeCol ts)"
    and "rectangular (length ts) df"
    and "map_of df ''close'' = Some (FloatCol cs)"
    and "map_of df ''cumulative_return'' = map_option FloatCol crs"
  shows "snd (get_bucket_data_since c bucket name found (Some t0)) =
           (if filter (\<lambda>t. t > t0) ts = [] then No_new_data
            else New_data (map strftime (filter (\<lambda>t. t > t0) ts))
                   (FloatCol (map snd (filter (\<lambda>(t, x). t > t0) (zip ts cs))))
                   (map_option (select_rows (map (\<lambda>t. t > t0) ts)) (map_of df ''position''))
                   (map_option (\<lambda>xs. FloatCol (map (\<lambda>x. fmul x (Fin 100))
                        (map snd (filter (\<lambda>(t, x). t > t0) (zip ts xs))))) crs))"
proof -
  have r: "snd (get_bucket_data_since c bucket name found (Some t0)) =
           (if filter (\<lambda>t. t > t0) ts = [] then No_new_data
            else since_payload (filter (\<lambda>t. t > t0) ts) (select (map (\<lambda>t. t > t0) ts) df))"
    using since_parts(1) [OF assms(1-3)] .
  have "since_payload u (select (map (\<lambda>t. t > t0) ts) df) =
      New_data (map strftime u)
        (FloatCol (map snd (filter (\<lambda>(t, x). t > t0) (zip ts cs))))
        (map_option (select_rows (map (\<lambda>t. t > t0) ts)) (map_of df ''position''))
        (map_option (\<lambda>xs. FloatCol (map (\<lambda>x. fmul x (Fin 100))
             (map snd (filter (\<lambda>(t, x). t > t0) (zip ts xs))))) crs)" for u
    using assms(4,5)
    by (cases crs) (simp_all add: since_payload_def map_of_select keep_zip)
  with r show ?thesis
    by simp
qed

lemma since_response_sorted:
  assumes "map_of (DATA_CACHE c) (resolve_cache_key bucket name found) = Some df"
    and "map_of df ''timestamp'' = Some (TimeCol ts)"
    and "rectangular (length ts) df"
    and "map_of df ''close'' = Some (FloatCol cs)"
    and "map_of df ''cumulative_return'' = map_option FloatCol crs"
    and "sorted ts"
  shows "snd (get_bucket_data_since c bucket name found (Some t0)) =
           (if length (filter (\<lambda>t. t \<le> t0) ts) = length ts then No_new_data
            else New_data (map strftime (drop (length (filter (\<lambda>t. t \<le> t0) ts)) ts))
                   (FloatCol (drop (length (filter (\<lambda>t. t \<le> t0) ts)) cs))
                   (map_option (drop_col (length (filter (\<lambda>t. t \<le> t0) ts)))
                      (map_of df ''position''))
                   (map_option (\<lambda>xs. FloatCol (map (\<lambda>x. fmul x (Fin 100))
                        (drop (length (filter (\<lambda>t. t \<le> t0) ts)) xs))) crs))"
proof -
  let ?n = "length (filter (\<lambda>t. t \<le> t0) ts)"
  have cs: "length cs = length ts"
    using rectangular_col [OF assms(3,4)] by simp
  have a: "map snd (filter (\<lambda>(t, x). t > t0) (zip ts cs)) = drop ?n cs"
    using keep_newer_is_drop [OF cs assms(6), of t0] by (simp add: keep_zip)
  have b: "map_option (select_rows (map (\<lambda>t. t > t0) ts)) (map_of df ''position'') =
      map_option (drop_col ?n) (map_of df ''position'')"
  proof (cases "map_of df ''position''")
    case None
    then show ?thesis by simp
  next
    case (Some col)
    then have "col_len col = length ts"
      using rectangular_col [OF assms(3)] by blast
    with Some show ?thesis
      using select_rows_sorted [OF _ assms(6), of col t0] by simp
  qed
  have d: "map_option (\<lambda>xs. FloatCol (map (\<lambda>x. fmul x (Fin 100))
             (map snd (filter (\<lambda>(t, x). t > t0) (zip ts xs))))) crs =
      map_option (\<lambda>xs. FloatCol (map (\<lambda>x. fmul x (Fin 100)) (drop ?n xs))) crs"
  proof (cases crs)
    case None
    then show ?thesis by simp
  next
    case (Some xs)
    with assms(5) have "map_of df ''cumulative_return'' = Some (FloatCol xs)"
      by simp
    then have "length xs = length ts"
      using rectangular_col [OF assms(3)] by fastforce
    then have "map snd (filter (\<lambda>(t, x). t > t0) (zip ts xs)) = drop ?n xs"
      using keep_newer_is_drop [OF _ assms(6), of xs t0] by (simp add: keep_zip)
    with Some show ?thesis by (simp del: map_map)
  qed
  show ?thesis
    using since_response [OF assms(1-5), of t0] a b d
      newer_is_drop [OF assms(6), of t0] none_newer_iff [of t0 ts]
    by (simp del: map_map)
qed

text \<open>
  C6: for a cached series with a \<open>timestamp\<close> column and a watermark that parses, the
  rows selected are exactly those with a timestamp strictly greater than the watermark,
  in every column. For a series that has its price column (and whose cumulative return,
  if present, is numeric) the answer is "no new data" when no row is selected, and
  otherwise it lists exactly the selected rows: their timestamps, their prices, their
  positions and their cumulative returns in percent. On a series in timestamp order the
  selected rows are the series without its first rows, a suffix, and the answer lists
  that suffix; a watermark equal to the last timestamp gives "no new data".
\<close>

theorem since_returns_strictly_newer:
  assumes "map_of (DATA_CACHE c) (resolve_cache_key bucket name found) = Some df"
    and "map_of df ''timestamp'' = Some (TimeCol ts)"
    and "rectangular (length ts) df"
  shows "snd (get_bucket_data_since c bucket name found (Some t0)) =
           (if filter (\<lambda>t. t > t0) ts = [] then No_new_data
            else since_payload (filter (\<lambda>t. t > t0) ts) (select (map (\<lambda>t. t > t0) ts) df)) \<and>
         map_of (select (map (\<lambda>t. t > t0) ts) df) ''timestamp'' =
           Some (TimeCol (filter (\<lambda>t. t > t0) ts)) \<and>
         (map_of df ''close'' = Some (FloatCol cs) \<longrightarrow>
          map_of (select (map (\<lambda>t. t > t0) ts) df) ''close'' =
            Some (FloatCol (map snd (filter (\<lambda>(t, x). t > t0) (zip ts cs))))) \<and>
         (sorted ts \<longrightarrow>
          select (map (\<lambda>t. t > t0) ts) df =
            suffix_from (length (filter (\<lambda>t. t \<le> t0) ts)) df) \<and>
         (sorted ts \<and> ts \<noteq> [] \<and> t0 = last ts \<longrightarrow>
          snd (get_bucket_data_since c bucket name found (Some t0)) = No_new_data) \<and>
         (map_of df ''close'' = Some (FloatCol cs) \<and>
          map_of df ''cumulative_return'' = map_option FloatCol crs \<longrightarrow>
          snd (get_bucket_data_since c bucket name found (Some t0)) =
            (if filter (\<lambda>t. t > t0) ts = [] then No_new_data
             else New_data (map strftime (filter (\<lambda>t. t > t0) ts))
                    (FloatCol (map snd (filter (\<lambda>(t, x). t > t0) (zip ts cs))))
                    (map_option (select_rows (map (\<lambda>t. t > t0) ts)) (map_of df ''position''))
                    (map_option (\<lambda>xs. FloatCol (map (\<lambda>x. fmul x (Fin 100))
                         (map snd (filter (\<lambda>(t, x). t > t0) (zip ts xs))))) crs))) \<and>
         (map_of df ''close'' = Some (FloatCol cs) \<and>
          map_of df ''cumulative_return'' = map_option FloatCol crs \<and> sorted ts \<longrightarrow>
          snd (get_bucket_data_since c bucket name found (Some t0)) =
            (if length (filter (\<lambda>t. t \<le> t0) ts) = length ts then No_new_data
             else New_data (map strftime (drop (length (filter (\<lambda>t. t \<le> t0) ts)) ts))
                    (FloatCol (drop (length (filter (\<lambda>t. t \<le> t0) ts)) cs))
                    (map_option (drop_col (length (filter (\<lambda>t. t \<le> t0) ts)))
                       (map_of df ''position''))
                    (map_option (\<lambda>xs. FloatCol (map (\<lambda>x. fmul x (Fin 100))
                         (drop (length (filter (\<lambda>t. t \<le> t0) ts)) xs))) crs)))"
proof -
  note parts = since_parts [OF assms]
  have listed: "map_of df ''close'' = Some (FloatCol cs) \<and>
      map_of df ''cumulative_return'' = map_option FloatCol crs \<longrightarrow>
      snd (get_bucket_data_since c bucket name found (Some t0)) =
        (if filter (\<lambda>t. t > t0) ts = [] then No_new_data
         else New_data (map strftime (filter (\<lambda>t. t > t0) ts))
                (FloatCol (map snd (filter (\<lambda>(t, x). t > t0) (zip ts cs))))
                (map_option (select_rows (map (\<lambda>t. t > t0) ts)) (map_of df ''position''))
                (map_option (\<lambda>xs. FloatCol (map (\<lambda>x. fmul x (Fin 100))
                     (map snd (filter (\<lambda>(t, x). t > t0) (zip ts xs))))) crs))"
    using since_response [OF assms] by blast
  have suffix: "map_of df ''close'' = Some (FloatCol cs) \<and>
      map_of df ''cumulative_return'' = map_option FloatCol crs \<and> sorted ts \<longrightarrow>
      snd (get_bucket_data_since c bucket name found (Some t0)) =
        (if length (filter (\<lambda>t. t \<le> t0) ts) = length ts then No_new_data
         else New_data (map strftime (drop (length (filter (\<lambda>t. t \<le> t0) ts)) ts))
                (FloatCol (drop (length (filter (\<lambda>t. t \<le> t0) ts)) cs))
                (map_option (drop_col (length (filter (\<lambda>t. t \<le> t0) ts)))
                   (map_of df ''position''))
                (map_option (\<lambda>xs. FloatCol (map (\<lambda>x. fmul x (Fin 100))
                     (drop (length (filter (\<lambda>t. t \<le> t0) ts)) xs))) crs))"
    using since_response_sorted [OF assms] by blast
  from parts(1) [of t0] parts(2) [of t0] parts(3) [of cs t0] parts(4) [of t0] parts(5) [of t0]
    listed suffix
  show ?thesis
    by blast
qed

theorem since_returns_strictly_newer_witness:
  "map_of (DATA_CACHE cache1) (resolve_cache_key ''demo'' ''1'' None) = Some ex_cached \<and>
   map_of ex_cached ''timestamp'' = Some (TimeCol [60000000000, 120000000000, 180000000000]) \<and>
   rectangular 3 ex_cached \<and>
   map_of ex_cached ''close'' = Some (FloatCol [Fin 100, Fin 110, Fin 121]) \<and>
   map_of ex_cached ''cumulative_return'' =
     map_option FloatCol (Some [Fin 0, Fin 0, Fin (1 / 10)]) \<and>
   sorted [60000000000, 120000000000, 180000000000 :: int] \<and>
   snd (get_bucket_data_since cache1 ''demo'' ''1'' None (Some 60000000000)) =
     New_data [120, 180] (FloatCol [Fin 110, Fin 121]) (Some (FloatCol [Fin 1, Fin 1]))
       (Some (FloatCol [Fin 0, Fin 10])) \<and>
   select (map (\<lambda>t. t > 60000000000) [60000000000, 120000000000, 180000000000 :: int]) ex_cached =
     suffix_from 1 ex_cached \<and>
   snd (get_bucket_data_since cache1 ''demo'' ''1'' None (Some 180000000000)) = No_new_data"
proof -
  let ?ts = "[60000000000, 120000000000, 180000000000] :: int list"
  let ?cs = "[Fin 100, Fin 110, Fin 121]"
  let ?crs = "Some [Fin 0, Fin 0, Fin (1 / 10)]"
  have h1: "map_of (DATA_CACHE cache1) (resolve_cache_key ''demo'' ''1'' None) = Some ex_cached"
    by (simp add: cache1_def resolve_cache_key_def isdigit_def startswith_def)
  have h2: "map_of ex_cached ''timestamp'' = Some (TimeCol ?ts)"
    by (simp add: ex_cached_def)
  have h3: "rectangular (length ?ts) ex_cached"
    by (simp add: rectangular_def ex_cached_def)
  have h4: "map_of ex_cached ''close'' = Some (FloatCol ?cs)"
    by (simp add: ex_cached_def)
  have h5: "map_of ex_cached ''cumulative_return'' = map_option FloatCol ?crs"
    by (simp add: ex_cached_def)
  have h6: "sorted ?ts"
    by simp
  have pos: "map_of ex_cached ''position'' = Some (FloatCol [Fin 0, Fin 1, Fin 1])"
    by (simp add: ex_cached_def)
  have a: "snd (get_bucket_data_since cache1 ''demo'' ''1'' None (Some 60000000000)) =
     New_data [120, 180] (FloatCol [Fin 110, Fin 121]) (Some (FloatCol [Fin 1, Fin 1]))
       (Some (FloatCol [Fin 0, Fin 10]))"
    using since_returns_strictly_newer [OF h1 h2 h3, of 60000000000 ?cs ?crs] h4 h5 h6 pos
    by (simp add: strftime_def since_payload_def suffix_from_def ex_cached_def)
  have b: "select (map (\<lambda>t. t > 60000000000) ?ts) ex_cached = suffix_from 1 ex_cached"
    using since_returns_strictly_newer [OF h1 h2 h3, of 60000000000] by simp
  have c: "snd (get_bucket_data_since cache1 ''demo'' ''1'' None (Some 180000000000)) = No_new_data"
    using since_returns_strictly_newer [OF h1 h2 h3, of 180000000000] by simp
  have h3': "rectangular 3 ex_cached"
    using h3 by (simp add: numeral_3_eq_3)
  from h1 h2 h3' h4 h5 h6 a b c show ?thesis by blast
qed

text \<open>
  C10: the incremental endpoint never changes the cache, whatever it is given, and it
  answers 404 whenever the cache has no frame under the resolved key. It takes no file
  of the disk as input.
\<close>

theorem since_uncached_is_not_found:
  "fst (get_bucket_data_since c bucket name found last_dt) = c \<and>
   (map_of (DATA_CACHE c) (resolve_cache_key bucket name found) = None \<longrightarrow>
    snd (get_bucket_data_since c bucket name found last_dt) =
      Http_failure 404 (''Symbol '' @ name @ '' not found in bucket '' @ bucket))"
  by (auto simp: get_bucket_data_since_def Let_def split: option.splits column.splits)

theorem since_uncached_is_not_found_witness:
  "map_of (DATA_CACHE cache1) (resolve_cache_key ''demo'' ''TS-2'' None) = None \<and>
   get_bucket_data_since cache1 ''demo'' ''TS-2'' None (Some 0) =
     (cache1, Http_failure 404 ''Symbol TS-2 not found in bucket demo'')"
proof -
  have h: "map_of (DATA_CACHE cache1) (resolve_cache_key ''demo'' ''TS-2'' None) = None"
    by (simp add: cache1_def resolve_cache_key_def isdigit_def startswith_def)
  show ?thesis
    using h since_uncached_is_not_found [of cache1 "''demo''" "''TS-2''" None "Some 0"]
    by (simp add: prod_eq_iff)
qed

section \<open>Properties of the summary aggregator\<close>

lemma iloc_neg:
  "0 < k \<Longrightarrow> k \<le> length xs \<Longrightarrow> iloc xs (- int k) = Some (xs ! (length xs - k))"
  by (auto simp: iloc_def nat_diff_distrib' of_nat_diff)

lemma iloc_last: "xs \<noteq> [] \<Longrightarrow> iloc xs (- 1) = Some (last xs)"
  using iloc_neg [of 1 xs] by (simp add: last_conv_nth Suc_leI)

lemma iloc_first: "xs \<noteq> [] \<Longrightarrow> iloc xs 0 = Some (hd xs)"
  by (simp add: iloc_def hd_conv_nth)

text \<open>
  C8, as the code has it: the 24-hour change is taken against the row 1440 positions
  from the end when the series has more than 1440 rows, and is 0 otherwise; the 7-day
  change is taken against the row 10080 positions from the end when the series has more
  than 10080 rows, and against the first row otherwise.
\<close>

theorem price_changes_windows:
  assumes "close \<noteq> []"
  shows "price_changes close =
     Some (last close,
           (if length close > 1440
            then percent_change (last close) (close ! (length close - 1440)) else Fin 0),
           (if length close > 10080
            then percent_change (last close) (close ! (length close - 10080))
            else percent_change (last close) (hd close)))"
proof -
  have a: "length close > 1440 \<Longrightarrow> iloc close (- 1440) = Some (close ! (length close - 1440))"
    using iloc_neg [of 1440 close] by simp
  have b: "length close > 10080 \<Longrightarrow> iloc close (- 10080) = Some (close ! (length close - 10080))"
    using iloc_neg [of 10080 close] by simp
  show ?thesis
    using assms a b by (simp add: price_changes_def iloc_last iloc_first)
qed

theorem price_changes_windows_witness:
  "[Fin 100, Fin 110] \<noteq> [] \<and> price_changes [Fin 100, Fin 110] = Some (Fin 110, Fin 0, Fin 10)"
  using price_changes_windows [of "[Fin 100, Fin 110]"]
  by (simp add: percent_change_def fsub_def)

text \<open>
  C8 as stated fails for the 24-hour window: on two rows, 100 then 110, the 24-hour
  change is 0, while the change against the earliest sample is 10 percent.
\<close>

theorem change_24h_has_no_fallback:
  "length [Fin 100, Fin 110] \<le> 1440 \<and>
   map_option (fst \<circ> snd) (price_changes [Fin 100, Fin 110]) = Some (Fin 0) \<and>
   percent_change (last [Fin 100, Fin 110]) (hd [Fin 100, Fin 110]) = Fin 10"
  by (simp add: price_changes_def iloc_def percent_change_def fsub_def)

text \<open>
  C9: with the symbols BTC and ETH submitted in that order and the ETH task completing
  first, the list of the response is ETH, BTC, which is not in order of symbol name.
\<close>

theorem summary_not_sorted_by_symbol:
  "map symbol (summary_symbols [0] [([1, 0], [Some btc_row, Some eth_row])]) = [''ETH'', ''BTC''] \<and>
   \<not> sorted (map symbol (summary_symbols [0] [([1, 0], [Some btc_row, Some eth_row])]))"
  by (simp add: summary_symbols_def process_bucket_summary_def as_completed_def
      btc_row_def eth_row_def)

section \<open>Properties of the resampler\<close>

lemma kept_sorted:
  "0 < width \<Longrightarrow> sorted (map (\<lambda>k. k * width) (filter P [a..b]))"
proof -
  assume w: "0 < (width :: int)"
  have "sorted (filter P [a..b])"
    by (rule sorted_wrt_filter) simp
  then show ?thesis
    using w by (simp add: sorted_map sorted_wrt_mono_rel [of _ "(\<le>)"] mult_right_mono)
qed

lemma last_valid_in_rows:
  "last_valid col rows = Some i \<Longrightarrow> i \<in> set rows"
proof -
  assume a: "last_valid col rows = Some i"
  then have ne: "filter (valid_at col) rows \<noteq> []" and i: "i = last (filter (valid_at col) rows)"
    by (auto simp: last_valid_def split: list.splits)
  from ne have "last (filter (valid_at col) rows) \<in> set (filter (valid_at col) rows)"
    by (rule last_in_set)
  with i show ?thesis by simp
qed

lemma kept_at_most_rows:
  assumes "agg \<noteq> []"
  shows "length (filter (\<lambda>k. list_all (\<lambda>(name, col).
                    last_valid col (bucket_rows width ts order k) \<noteq> None) agg) [a..b])
         \<le> card (set order)"
proof -
  let ?keep = "\<lambda>k. list_all (\<lambda>(name, col).
                    last_valid col (bucket_rows width ts order k) \<noteq> None) agg"
  let ?kept = "filter ?keep [a..b]"
  from assms obtain name col rest where agg: "agg = (name, col) # rest"
    by (cases agg) auto
  define pick where "pick k = the (last_valid col (bucket_rows width ts order k))" for k
  have in_bucket: "pick k \<in> set order \<and> ts ! pick k div width = k" if "k \<in> set ?kept" for k
  proof -
    from that agg obtain i where i: "last_valid col (bucket_rows width ts order k) = Some i"
      by auto
    then have "i \<in> set (bucket_rows width ts order k)"
      by (rule last_valid_in_rows)
    with i show ?thesis
      by (simp add: pick_def bucket_rows_def)
  qed
  have "inj_on pick (set ?kept)"
    by (rule inj_onI) (metis in_bucket)
  moreover have "pick ` set ?kept \<subseteq> set order"
    using in_bucket by blast
  ultimately have c: "card (set ?kept) \<le> card (set order)"
    by (meson List.finite_set card_inj_on_le)
  have d: "distinct ?kept"
    by simp
  have "length ?kept = card (set ?kept)"
    by (rule distinct_card [symmetric, OF d])
  with c show ?thesis
    by (simp only:)
qed

lemma resample_last_shape:
  assumes "agg \<noteq> []" and "0 < width"
  shows "\<exists>ts'. map_of (resample_last width timestamp_col ts agg) timestamp_col = Some (TimeCol ts')
           \<and> sorted ts' \<and> len (resample_last width timestamp_col ts agg) = length ts'
           \<and> length ts' \<le> length ts"
proof -
  let ?order = "sort_key (\<lambda>i. ts ! i) [0..<length ts]"
  have "card (set ?order) = length ts"
    by simp
  then show ?thesis
    using kept_at_most_rows [OF assms(1), of width ts ?order] kept_sorted [OF assms(2)]
    by (simp add: resample_last_def Let_def len_def)
qed


lemma in_columns: "map_of df name = Some col \<Longrightarrow> name \<in> set (columns df)"
  by (metis columns_def image_set map_of_eq_None_iff option.distinct(1))

lemma len_rectangular: "rectangular n df \<Longrightarrow> df \<noteq> [] \<Longrightarrow> len df = n"
  by (cases df) (auto simp: rectangular_def len_def)

lemma resample_some:
  assumes "map_of df ''timestamp'' = Some (TimeCol ts)"
    and "rectangular (length ts) df"
    and "map_of df ''close'' = Some cc"
    and "ts \<noteq> []"
  shows "\<exists>agg. agg \<noteq> [] \<and> get_resampled_data df (Some p) =
           Inr (resample_last (period_ns p) ''timestamp'' ts agg)"
proof -
  have ne: "df \<noteq> []"
    using assms(1) by auto
  have l: "len df = length ts"
    using len_rectangular [OF assms(2) ne] .
  have e: "\<not> df_empty df"
    using ne l assms(4) by (simp add: df_empty_def)
  have t: "''timestamp'' \<in> set (columns df)"
    using assms(1) by (rule in_columns)
  have "map_of (AList.delete ''timestamp'' df) ''close'' = Some cc"
    using assms(3) by (simp add: delete_conv')
  then have "''close'' \<in> set (columns (AList.delete ''timestamp'' df))"
    by (rule in_columns)
  then have a: "agg_dict (AList.delete ''timestamp'' df) \<noteq> []"
    by (simp add: agg_dict_def)
  let ?agg = "map (\<lambda>name. (name, the (map_of (AList.delete ''timestamp'' df) name)))
                (agg_dict (AList.delete ''timestamp'' df))"
  have "get_resampled_data df (Some p) = Inr (resample_last (period_ns p) ''timestamp'' ts ?agg)"
    using a e t assms(1) by (simp add: get_resampled_data_def Let_def)
  moreover have "?agg \<noteq> []"
    using a by simp
  ultimately show ?thesis
    by blast
qed

lemma resample_auto:
  assumes "map_of df ''timestamp'' = Some (TimeCol ts)"
    and "rectangular (length ts) df"
  shows "get_resampled_data df None =
           (case auto_period (length ts) of None \<Rightarrow> Inr df
            | Some p \<Rightarrow> get_resampled_data df (Some p))"
proof -
  have ne: "df \<noteq> []"
    using assms(1) by auto
  have l: "len df = length ts"
    using len_rectangular [OF assms(2) ne] .
  show ?thesis
  proof (cases "ts = []")
    case True
    with l show ?thesis
      by (simp add: get_resampled_data_def df_empty_def auto_period_def)
  next
    case False
    with l ne have "\<not> df_empty df"
      by (simp add: df_empty_def)
    with l show ?thesis
      by (simp add: get_resampled_data_def Let_def split: option.splits)
  qed
qed

lemma period_positive: "0 < period_ns p"
  by (cases p) simp_all

lemma resample_shape:
  assumes "map_of df ''timestamp'' = Some (TimeCol ts)"
    and "rectangular (length ts) df"
    and "map_of df ''close'' = Some cc"
    and "sorted ts"
  shows "\<exists>out ts'. get_resampled_data df period = Inr out \<and>
           map_of out ''timestamp'' = Some (TimeCol ts') \<and> sorted ts' \<and>
           len out = length ts' \<and> length ts' \<le> length ts"
proof -
  have ne: "df \<noteq> []"
    using assms(1) by auto
  have l: "len df = length ts"
    using len_rectangular [OF assms(2) ne] .
  have same: ?thesis if "get_resampled_data df period = Inr df"
    using that assms(1,4) l by auto
  have res: ?thesis if eq: "get_resampled_data df period = get_resampled_data df (Some p)"
    and nonempty: "ts \<noteq> []" for p
  proof -
    obtain agg where "agg \<noteq> []" "get_resampled_data df (Some p) =
           Inr (resample_last (period_ns p) ''timestamp'' ts agg)"
      using resample_some [OF assms(1-3) nonempty] by blast
    then show ?thesis
      using eq resample_last_shape [OF \<open>agg \<noteq> []\<close> period_positive [of p], of "''timestamp''" ts]
      by auto
  qed
  show ?thesis
  proof (cases "ts = []")
    case True
    with l have "get_resampled_data df period = Inr df"
      by (simp add: get_resampled_data_def df_empty_def)
    then show ?thesis by (rule same)
  next
    case False
    show ?thesis
    proof (cases period)
      case (Some p)
      then show ?thesis using res [of p] False by simp
    next
      case None
      show ?thesis
      proof (cases "auto_period (length ts)")
        case None
        with \<open>period = None\<close> resample_auto [OF assms(1,2)] show ?thesis
          using same by simp
      next
        case (Some p)
        with \<open>period = None\<close> resample_auto [OF assms(1,2)] show ?thesis
          using res [of p] False by simp
      qed
    qed
  qed
qed


lemma length_grid: "length (minute_grid t0 n) = n"
  by (simp add: minute_grid_def)

lemma nth_grid: "i < n \<Longrightarrow> minute_grid t0 n ! i = t0 + int i * 60000000000"
  by (simp add: minute_grid_def)

lemma sorted_grid: "sorted (minute_grid t0 n)"
  by (simp add: minute_grid_def sorted_map sorted_wrt_mono_rel [OF _ sorted_wrt_upt])

lemma order_grid: "sort_key (\<lambda>i. minute_grid t0 n ! i) [0..<n] = [0..<n]"
proof -
  have "map (\<lambda>i. minute_grid t0 n ! i) [0..<length (minute_grid t0 n)] = minute_grid t0 n"
    by (rule map_nth)
  then have "sorted (map (\<lambda>i. minute_grid t0 n ! i) [0..<n])"
    by (simp add: length_grid sorted_grid)
  then show ?thesis
    by (rule sort_key_id_if_sorted)
qed

lemma resample_grid:
  assumes "0 < n"
  shows "resample_last width tc (minute_grid t0 n) agg =
     (let buckets = [t0 div width .. (t0 + int (n - 1) * 60000000000) div width];
          kept = filter (\<lambda>k. list_all (\<lambda>(name, col).
                    last_valid col (bucket_rows width (minute_grid t0 n) [0..<n] k) \<noteq> None) agg)
                   buckets
      in (tc, TimeCol (map (\<lambda>k. k * width) kept)) #
         map (\<lambda>(name, col).
               (name, take_rows col
                  (map (\<lambda>k. the (last_valid col
                     (bucket_rows width (minute_grid t0 n) [0..<n] k))) kept)))
           agg)"
proof -
  have h: "minute_grid t0 n ! hd [0..<n] div width = t0 div width"
    using assms by (simp add: nth_grid)
  have l: "minute_grid t0 n ! last [0..<n] div width =
      (t0 + int (n - 1) * 60000000000) div width"
    using assms by (simp add: nth_grid)
  show ?thesis
    unfolding resample_last_def Let_def length_grid order_grid h l ..
qed

lemma len_resample_grid_le:
  assumes "0 < n"
  shows "len (resample_last width tc (minute_grid t0 n) agg)
         \<le> nat ((t0 + int (n - 1) * 60000000000) div width - t0 div width + 1)"
proof -
  have "length (filter P [a..b]) \<le> nat (b - a + 1)" for P and a b :: int
    using length_filter_le [of P "[a..b]"] by simp
  then show ?thesis
    unfolding resample_grid [OF assms] Let_def len_def by simp
qed

lemma len_resample_grid_eq:
  assumes "0 < n"
    and "\<forall>k. t0 div width \<le> k \<and> k \<le> (t0 + int (n - 1) * 60000000000) div width \<longrightarrow>
           (\<exists>i<n. (t0 + int i * 60000000000) div width = k)"
    and "\<forall>(name, col) \<in> set agg. \<forall>i<n. valid_at col i"
  shows "len (resample_last width tc (minute_grid t0 n) agg)
         = nat ((t0 + int (n - 1) * 60000000000) div width - t0 div width + 1)"
proof -
  let ?a = "t0 div width" and ?b = "(t0 + int (n - 1) * 60000000000) div width"
  let ?keep = "\<lambda>k. list_all (\<lambda>(name, col).
                    last_valid col (bucket_rows width (minute_grid t0 n) [0..<n] k) \<noteq> None) agg"
  have keep: "?keep k" if k: "k \<in> set [?a..?b]" for k
  proof -
    from k assms(2) obtain i where i: "i < n" "(t0 + int i * 60000000000) div width = k"
      by auto
    have "last_valid col (bucket_rows width (minute_grid t0 n) [0..<n] k) \<noteq> None"
      if "(name, col) \<in> set agg" for name col
    proof -
      from that assms(3) i(1) have "valid_at col i"
        by blast
      moreover have "i \<in> set (bucket_rows width (minute_grid t0 n) [0..<n] k)"
        using i by (simp add: bucket_rows_def nth_grid)
      ultimately have "filter (valid_at col) (bucket_rows width (minute_grid t0 n) [0..<n] k) \<noteq> []"
        by (auto simp: filter_empty_conv)
      then show ?thesis
        by (simp add: last_valid_def split: list.splits)
    qed
    then show ?thesis
      by (auto simp: list_all_iff)
  qed
  have "filter ?keep [?a..?b] = [?a..?b]"
    by (rule filter_True) (use keep in blast)
  then have "len (resample_last width tc (minute_grid t0 n) agg) = length [?a..?b]"
    unfolding resample_grid [OF assms(1)] Let_def len_def by simp
  then show ?thesis
    by simp
qed


text \<open>
  C7, with 1,001 for 1,000: on a series in timestamp order that has a \<open>timestamp\<close> and a
  \<open>close\<close> column, resampling with no period uses 1-hour buckets above 50,000 samples,
  30-minute buckets above 20,000, 15-minute buckets above 10,000, 5-minute buckets above
  5,000, and returns the series as it is otherwise; with or without a period, the result
  has its timestamps in non-decreasing order and no more rows than the input; and 60,000
  one-minute samples are resampled by the hour into at most 1,001 buckets.
\<close>

theorem resample_ladder_and_bounds:
  assumes "map_of df ''timestamp'' = Some (TimeCol ts)"
    and "rectangular (length ts) df"
    and "map_of df ''close'' = Some cc"
    and "sorted ts"
  shows "(50000 < length ts \<longrightarrow>
            get_resampled_data df None = get_resampled_data df (Some P_1h)) \<and>
         (20000 < length ts \<and> length ts \<le> 50000 \<longrightarrow>
            get_resampled_data df None = get_resampled_data df (Some P_30min)) \<and>
         (10000 < length ts \<and> length ts \<le> 20000 \<longrightarrow>
            get_resampled_data df None = get_resampled_data df (Some P_15min)) \<and>
         (5000 < length ts \<and> length ts \<le> 10000 \<longrightarrow>
            get_resampled_data df None = get_resampled_data df (Some P_5min)) \<and>
         (length ts \<le> 5000 \<longrightarrow> get_resampled_data df None = Inr df) \<and>
         (\<exists>out ts'. get_resampled_data df period = Inr out \<and>
            map_of out ''timestamp'' = Some (TimeCol ts') \<and> sorted ts' \<and>
            len out = length ts' \<and> len out \<le> len df) \<and>
         (ts = minute_grid t0 60000 \<longrightarrow>
            get_resampled_data df None = get_resampled_data df (Some P_1h) \<and>
            (\<exists>out. get_resampled_data df None = Inr out \<and> len out \<le> 1001))"
proof -
  have ne: "df \<noteq> []"
    using assms(1) by auto
  have l: "len df = length ts"
    using len_rectangular [OF assms(2) ne] .
  note auto = resample_auto [OF assms(1,2)]
  have ladder:
    "50000 < length ts \<longrightarrow> get_resampled_data df None = get_resampled_data df (Some P_1h)"
    "20000 < length ts \<and> length ts \<le> 50000 \<longrightarrow>
       get_resampled_data df None = get_resampled_data df (Some P_30min)"
    "10000 < length ts \<and> length ts \<le> 20000 \<longrightarrow>
       get_resampled_data df None = get_resampled_data df (Some P_15min)"
    "5000 < length ts \<and> length ts \<le> 10000 \<longrightarrow>
       get_resampled_data df None = get_resampled_data df (Some P_5min)"
    "length ts \<le> 5000 \<longrightarrow> get_resampled_data df None = Inr df"
    by (simp_all add: auto auto_period_def)
  have shape: "\<exists>out ts'. get_resampled_data df period = Inr out \<and>
            map_of out ''timestamp'' = Some (TimeCol ts') \<and> sorted ts' \<and>
            len out = length ts' \<and> len out \<le> len df"
    using resample_shape [OF assms, of period] l by auto
  have grid: "get_resampled_data df None = get_resampled_data df (Some P_1h) \<and>
            (\<exists>out. get_resampled_data df None = Inr out \<and> len out \<le> 1001)"
    if ts: "ts = minute_grid t0 60000"
  proof -
    have n: "length ts = 60000"
      by (simp add: ts length_grid)
    then have eq: "get_resampled_data df None = get_resampled_data df (Some P_1h)"
      using ladder(1) by simp
    have "ts \<noteq> []"
      using n by auto
    then obtain agg where "get_resampled_data df (Some P_1h) =
        Inr (resample_last (period_ns P_1h) ''timestamp'' ts agg)"
      using resample_some [OF assms(1-3)] by blast
    moreover have "len (resample_last (period_ns P_1h) ''timestamp'' ts agg) \<le> 1001"
    proof -
      have "len (resample_last 3600000000000 ''timestamp'' (minute_grid t0 60000) agg)
          \<le> nat ((t0 + int (60000 - 1) * 60000000000) div 3600000000000
                  - t0 div 3600000000000 + 1)"
        by (rule len_resample_grid_le) simp
      also have "\<dots> \<le> 1001"
        by simp
      finally show ?thesis
        by (simp add: ts)
    qed
    ultimately show ?thesis
      using eq by simp
  qed
  from ladder shape grid show ?thesis
    by blast
qed

text \<open>
  C7 as stated fails on its last part: 60,000 one-minute samples that start at half
  past the hour are resampled by the hour into 1,001 buckets, one more than 1,000.
\<close>

theorem sixty_thousand_minutes_in_1001_buckets:
  "map_sum id len (get_resampled_data ex_60000 None) = Inr 1001"
proof -
  let ?ts = "minute_grid 1800000000000 60000"
  let ?agg = "[(''close'', FloatCol (replicate 60000 (Fin 100)))]"
  have h1: "map_of ex_60000 ''timestamp'' = Some (TimeCol ?ts)"
    by (simp add: ex_60000_def)
  have h2: "rectangular (length ?ts) ex_60000"
    by (simp add: rectangular_def ex_60000_def length_grid)
  have "get_resampled_data ex_60000 None = get_resampled_data ex_60000 (Some P_1h)"
    using resample_auto [OF h1 h2] by (simp add: length_grid auto_period_def)
  moreover have "get_resampled_data ex_60000 (Some P_1h) =
      Inr (resample_last 3600000000000 ''timestamp'' ?ts ?agg)"
    by (simp add: get_resampled_data_def df_empty_def len_def ex_60000_def length_grid
        columns_def agg_dict_def)
  moreover have "len (resample_last 3600000000000 ''timestamp'' ?ts ?agg) = 1001"
  proof -
    have hit: "\<exists>i<60000. (1800000000000 + int i * 60000000000) div 3600000000000 = k"
      if "0 \<le> k" "k \<le> 1000" for k :: int
    proof (cases "k = 0")
      case True
      then show ?thesis
        by (intro exI [of _ 0]) simp
    next
      case False
      with that have "nat (60 * k - 30) < 60000"
        and "(1800000000000 + int (nat (60 * k - 30)) * 60000000000) div 3600000000000 = k"
        by auto
      then show ?thesis
        by blast
    qed
    have "len (resample_last 3600000000000 ''timestamp'' ?ts ?agg) =
        nat ((1800000000000 + int (60000 - 1) * 60000000000) div 3600000000000
             - 1800000000000 div 3600000000000 + 1)"
      by (rule len_resample_grid_eq) (use hit in auto)
    then show ?thesis
      by simp
  qed
  ultimately show ?thesis
    by simp
qed


text \<open>
  By the hour, the four samples give two buckets: the bucket of 01:00 has no price and
  the bucket of 02:00 has no sample, and both are dropped.
\<close>

lemma resample_example:
  "get_resampled_data ex_minutes (Some P_1h) =
     Inr [(''timestamp'', TimeCol [0, 10800000000000]),
          (''close'', FloatCol [Fin 110, Fin 130]),
          (''position'', FloatCol [Fin 1, Fin 1])]"
  by code_simp

theorem resample_ladder_and_bounds_witness:
  "map_of ex_60000 ''timestamp'' = Some (TimeCol (minute_grid 1800000000000 60000)) \<and>
   rectangular (length (minute_grid 1800000000000 60000)) ex_60000 \<and>
   map_of ex_60000 ''close'' = Some (FloatCol (replicate 60000 (Fin 100))) \<and>
   sorted (minute_grid 1800000000000 60000) \<and>
   50000 < length (minute_grid 1800000000000 60000) \<and>
   get_resampled_data ex_60000 None = get_resampled_data ex_60000 (Some P_1h) \<and>
   (\<exists>out. get_resampled_data ex_60000 None = Inr out \<and> len out \<le> 1001) \<and>
   map_of ex_minutes ''timestamp'' =
     Some (TimeCol [1800000000000, 3540000000000, 3600000000000, 10800000000000]) \<and>
   rectangular 4 ex_minutes \<and>
   map_of ex_minutes ''close'' = Some (FloatCol [Fin 100, Fin 110, NaN, Fin 130]) \<and>
   sorted [1800000000000, 3540000000000, 3600000000000, 10800000000000 :: int] \<and>
   get_resampled_data ex_minutes None = Inr ex_minutes \<and>
   (\<exists>out ts'. get_resampled_data ex_minutes (Some P_1h) = Inr out \<and>
      map_of out ''timestamp'' = Some (TimeCol ts') \<and> sorted ts' \<and>
      len out = length ts' \<and> len out \<le> len ex_minutes)"
proof -
  let ?g = "minute_grid 1800000000000 60000"
  let ?m = "[1800000000000, 3540000000000, 3600000000000, 10800000000000] :: int list"
  have a1: "map_of ex_60000 ''timestamp'' = Some (TimeCol ?g)"
    by (simp add: ex_60000_def)
  have a2: "rectangular (length ?g) ex_60000"
    by (simp add: rectangular_def ex_60000_def length_grid)
  have a3: "map_of ex_60000 ''close'' = Some (FloatCol (replicate 60000 (Fin 100)))"
    by (simp add: ex_60000_def)
  have a4: "sorted ?g"
    by (rule sorted_grid)
  have a5: "50000 < length ?g"
    by (simp add: length_grid)
  have b1: "map_of ex_minutes ''timestamp'' = Some (TimeCol ?m)"
    by (simp add: ex_minutes_def)
  have b2: "rectangular (length ?m) ex_minutes"
    by (simp add: rectangular_def ex_minutes_def)
  have b3: "map_of ex_minutes ''close'' = Some (FloatCol [Fin 100, Fin 110, NaN, Fin 130])"
    by (simp add: ex_minutes_def)
  have b4: "sorted ?m"
    by simp
  have b2': "rectangular 4 ex_minutes"
    by (simp add: rectangular_def ex_minutes_def)
  note big = resample_ladder_and_bounds [OF a1 a2 a3 a4, of None 1800000000000]
  note small = resample_ladder_and_bounds [OF b1 b2 b3 b4, of "Some P_1h" 0]
  have c1: "get_resampled_data ex_60000 None = get_resampled_data ex_60000 (Some P_1h)"
    using big a5 by blast
  have c2: "\<exists>out. get_resampled_data ex_60000 None = Inr out \<and> len out \<le> 1001"
    using big by blast
  have d1: "get_resampled_data ex_minutes None = Inr ex_minutes"
    using small by simp
  have d2: "\<exists>out ts'. get_resampled_data ex_minutes (Some P_1h) = Inr out \<and>
      map_of out ''timestamp'' = Some (TimeCol ts') \<and> sorted ts' \<and>
      len out = length ts' \<and> len out \<le> len ex_minutes"
    using small by blast
  from a1 a2 a3 a4 a5 c1 c2 b1 b2' b3 b4 d1 d2 show ?thesis
    by blast
qed

end
